theory Spec2Isabelle
  imports Main
begin

section \<open>Strings and character classes\<close>

text \<open>
  A JavaScript string is modelled as a \<^typ>\<open>string\<close>: a list of code units, here the
  8-bit ones. The regular expressions of the source carry no unicode flag and work on
  single code units; every code unit outside ASCII falls outside \<open>[a-zA-Z0-9._-]\<close>
  and outside \<open>\w\<close>. Where the source only tests a value for truthiness (\<open>x || y\<close>,
  \<open>x && y\<close>, \<open>!x\<close>), \<open>null\<close> and \<open>undefined\<close> are both \<open>None\<close> of an option type;
  where it tells them apart, the type of the value has both.
\<close>

definition is_lower :: "char \<Rightarrow> bool" where
  "is_lower c \<longleftrightarrow> c \<in> set ''abcdefghijklmnopqrstuvwxyz''"

definition is_upper :: "char \<Rightarrow> bool" where
  "is_upper c \<longleftrightarrow> c \<in> set ''ABCDEFGHIJKLMNOPQRSTUVWXYZ''"

definition is_digit :: "char \<Rightarrow> bool" where
  "is_digit c \<longleftrightarrow> c \<in> set ''0123456789''"

definition is_alnum :: "char \<Rightarrow> bool" where
  \<comment> \<open>the class \<open>[a-zA-Z0-9]\<close>\<close>
  "is_alnum c \<longleftrightarrow> is_lower c \<or> is_upper c \<or> is_digit c"

definition is_key_char :: "char \<Rightarrow> bool" where
  \<comment> \<open>the class \<open>[a-zA-Z0-9._-]\<close>\<close>
  "is_key_char c \<longleftrightarrow> is_alnum c \<or> c \<in> set ''._-''"

definition is_space :: "char \<Rightarrow> bool" where
  \<comment> \<open>\<open>\s\<close> and the characters removed by \<open>trim()\<close>, among the 8-bit code units:
      tab, line feed, vertical tab, form feed, carriage return, space, no-break space\<close>
  "is_space c \<longleftrightarrow> c \<in> set [CHR 0x09, CHR 0x0A, CHR 0x0B, CHR 0x0C, CHR 0x0D, CHR 0x20, CHR 0xA0]"

definition lower_char :: "char \<Rightarrow> char" where
  \<comment> \<open>\<open>toLowerCase()\<close> on one code unit: \<open>A-Z\<close>, and the Latin-1 capitals
      \<open>0xC0-0xDE\<close> without the multiplication sign \<open>0xD7\<close>, move up by 32\<close>
  "lower_char c =
     (let n = (of_char c :: nat)
      in if (65 \<le> n \<and> n \<le> 90) \<or> (192 \<le> n \<and> n \<le> 222 \<and> n \<noteq> 215)
         then char_of (n + 32) else c)"

definition toLowerCase :: "string \<Rightarrow> string" where
  "toLowerCase s = map lower_char s"

text \<open>\<open>x || y\<close> on strings that may be \<open>undefined\<close>: the empty string is falsy too.\<close>

definition or_else :: "string option \<Rightarrow> string \<Rightarrow> string" where
  "or_else x d = (case x of None \<Rightarrow> d | Some s \<Rightarrow> if s = [] then d else s)"

section \<open>Index key sanitisation\<close>

text \<open>
  \<^verbatim>\<open>
  sanitizeIndexKey(key) {
    const cleaned = (key || '')
      .replace(/^[^a-zA-Z0-9]+/, '')
      .replace(/[^a-zA-Z0-9._-]/g, '_') || 'idx_hash';
    if (cleaned.length <= 36) { return cleaned; }
    const hash = crypto.createHash('md5').update(cleaned).digest('hex').slice(0, 28);
    return `idx_${hash}`;
  }
  \<close>
  The hash of the crypto library is a parameter \<open>md5\<close>, the hex digest of a string.
\<close>

fun strip_leading :: "string \<Rightarrow> string" where
  \<comment> \<open>\<open>.replace(/^[^a-zA-Z0-9]+/, '')\<close>: the anchored run at the start is removed\<close>
  "strip_leading [] = []"
| "strip_leading (c # cs) = (if is_alnum c then c # cs else strip_leading cs)"

fun replace_invalid :: "string \<Rightarrow> string" where
  \<comment> \<open>\<open>.replace(/[^a-zA-Z0-9._-]/g, '_')\<close>: every match, one code unit each\<close>
  "replace_invalid [] = []"
| "replace_invalid (c # cs) = (if is_key_char c then c else CHR ''_'') # replace_invalid cs"

definition sanitizeIndexKey :: "(string \<Rightarrow> string) \<Rightarrow> string option \<Rightarrow> string" where
  "sanitizeIndexKey md5 key =
     (let cleaned = or_else (Some (replace_invalid (strip_leading (or_else key [])))) ''idx_hash''
      in if length cleaned \<le> 36 then cleaned
         else ''idx_'' @ take 28 (md5 cleaned))"

section \<open>Parsing the field list of an index\<close>

text \<open>
  \<^verbatim>\<open>
  parseIndexFields(fieldString) {
    const tokens = fieldString.split(',').map(token => token.trim()).filter(Boolean);
    const fields = [];
    const orders = [];
    for (const token of tokens) {
      const lower = token.toLowerCase();
      if ((lower === 'asc' || lower === 'desc') && fields.length) {
        orders[fields.length - 1] = lower === 'desc' ? 'DESC' : 'ASC';
      } else {
        fields.push(token);
        orders.push(null);
      }
    }
    return { fields, orders };
  }
  \<close>
\<close>

fun split_on :: "char \<Rightarrow> string \<Rightarrow> string list" where
  \<comment> \<open>\<open>s.split(d)\<close>: the pieces between the separators, at least one piece\<close>
  "split_on d [] = [[]]"
| "split_on d (c # cs) =
     (if c = d then [] # split_on d cs
      else (case split_on d cs of [] \<Rightarrow> [[c]] | x # xs \<Rightarrow> (c # x) # xs))"

definition trim :: "string \<Rightarrow> string" where
  "trim s = rev (dropWhile is_space (rev (dropWhile is_space s)))"

fun js_set :: "'a option list \<Rightarrow> nat \<Rightarrow> 'a option \<Rightarrow> 'a option list" where
  \<comment> \<open>\<open>xs[i] = v\<close> on a JavaScript array: an index past the end extends the array\<close>
  "js_set xs i v =
     (if i < length xs then xs[i := v] else xs @ replicate (i - length xs) None @ [v])"

record index_fields =
  fields' :: "string list"
  orders' :: "string option list"

fun index_fields_loop :: "string list \<Rightarrow> index_fields \<Rightarrow> index_fields" where
  "index_fields_loop [] acc = acc"
| "index_fields_loop (token # tokens) acc =
     (let lower = toLowerCase token
      in if (lower = ''asc'' \<or> lower = ''desc'') \<and> length (fields' acc) \<noteq> 0
         then index_fields_loop tokens
                (acc\<lparr>orders' := js_set (orders' acc) (length (fields' acc) - 1)
                                  (Some (if lower = ''desc'' then ''DESC'' else ''ASC''))\<rparr>)
         else index_fields_loop tokens
                (acc\<lparr>fields' := fields' acc @ [token], orders' := orders' acc @ [None]\<rparr>))"

definition index_tokens :: "string \<Rightarrow> string list" where
  "index_tokens fieldString =
     filter (\<lambda>t. t \<noteq> []) (map trim (split_on CHR '','' fieldString))"

definition parseIndexFields :: "string \<Rightarrow> index_fields" where
  "parseIndexFields fieldString =
     index_fields_loop (index_tokens fieldString) \<lparr>fields' = [], orders' = []\<rparr>"

text \<open>
  The reading of a token list in the words of the specification: a token equal to
  \<open>asc\<close> or \<open>desc\<close>, whatever its case, is an order token; a field is followed by the
  run of order tokens that belong to it, the last of them giving its order, and has
  no order when the run is empty.
\<close>

definition is_order_token :: "string \<Rightarrow> bool" where
  "is_order_token t \<longleftrightarrow> toLowerCase t = ''asc'' \<or> toLowerCase t = ''desc''"

definition order_of :: "string \<Rightarrow> string" where
  "order_of t = (if toLowerCase t = ''desc'' then ''DESC'' else ''ASC'')"

function spec_index_entries :: "string list \<Rightarrow> (string \<times> string option) list" where
  "spec_index_entries [] = []"
| "spec_index_entries (t # ts) =
     (t, case takeWhile is_order_token ts of
           [] \<Rightarrow> None
         | r # rs \<Rightarrow> Some (order_of (last (r # rs))))
       # spec_index_entries (dropWhile is_order_token ts)"
  by pat_completeness auto
termination
  by (relation "measure length") (auto simp: length_dropWhile_le less_Suc_eq_le)

section \<open>The lock manager\<close>

text \<open>
  Times are milliseconds since the epoch (\<open>Date.getTime()\<close>); the successive readings of
  \<open>new Date()\<close> are a parameter \<open>clock\<close>, reading \<open>k\<close> being the next one.

  An error thrown is a value of \<open>error\<close>: an \<open>AppwriteError\<close> with its message and HTTP
  status, the error of a failed \<open>execSync\<close> with its stderr text and exit status, a plain
  \<open>Error\<close> with its message, the \<open>RangeError\<close> of \<open>toISOString()\<close> on an invalid
  \<open>Date\<close>, and the two errors of the lock manager,
  \<^verbatim>\<open>Lock '${lockId}' is held by ${existing.owner || 'unknown'} since ${existing.created_at}\<close>
  and \<^verbatim>\<open>Cannot release lock '${lockId}' held by ${existing.owner}\<close>, kept with their
  parts.
\<close>

type_synonym time = nat

datatype error =
    AppwriteError string nat
  | CliError string nat
  | Error string
  | RangeError string
  | LockHeld string string time
  | ReleaseDenied string string

fun status_of :: "error \<Rightarrow> nat option" where
  \<comment> \<open>\<open>error.status\<close>\<close>
  "status_of (AppwriteError m s) = Some s"
| "status_of (CliError m s) = Some s"
| "status_of _ = None"

fun stderr_of :: "error \<Rightarrow> string option" where
  \<comment> \<open>\<open>error.stderr\<close>\<close>
  "stderr_of (CliError m s) = Some m"
| "stderr_of _ = None"

record lock_doc =
  lock_id :: string
  owner :: "string option"
  status :: "string option"
  created_at :: time
  expires_at :: "time option"

text \<open>
  The remote database is outside the repository. A collection of documents is a map from
  document ids to documents, answering as the client code expects it to: creating an id
  that exists is refused with status 409, reading a missing one gives \<open>null\<close>
  (\<open>getDocument\<close> turns the 404 into it), updating a missing one is refused with 404, and
  deleting a missing one is no error (\<open>deleteDocument\<close> swallows the 404). One process
  runs at a time; nothing else writes between two calls.
\<close>

type_synonym 'd documents = "string \<rightharpoonup> 'd"

type_synonym lock_store = "lock_doc documents"

definition createDocument :: "'d documents \<Rightarrow> string \<Rightarrow> 'd \<Rightarrow> error + 'd documents" where
  "createDocument st documentId data =
     (if st documentId \<noteq> None
      then Inl (AppwriteError ''Document with the requested ID already exists.'' 409)
      else Inr (st(documentId \<mapsto> data)))"

definition getDocument :: "'d documents \<Rightarrow> string \<Rightarrow> 'd option" where
  "getDocument st documentId = st documentId"

definition updateDocument ::
  "'d documents \<Rightarrow> string \<Rightarrow> ('d \<Rightarrow> 'd) \<Rightarrow> error + 'd documents" where
  "updateDocument st documentId patch =
     (case st documentId of
        None \<Rightarrow> Inl (AppwriteError ''Document with the requested ID could not be found.'' 404)
      | Some d \<Rightarrow> Inr (st(documentId \<mapsto> patch d)))"

definition deleteDocument :: "'d documents \<Rightarrow> string \<Rightarrow> 'd documents" where
  "deleteDocument st documentId = st(documentId := None)"

definition lock_docId :: "(string \<Rightarrow> string) \<Rightarrow> string \<Rightarrow> string" where
  \<comment> \<open>\<open>_docId(lockId)\<close>: the md5 hex digest of \<open>lock:\<close> and the lock id\<close>
  "lock_docId md5 lockId = md5 (''lock:'' @ lockId)"

definition truthy :: "string option \<Rightarrow> bool" where
  "truthy x \<longleftrightarrow> x \<noteq> None \<and> x \<noteq> Some []"

text \<open>
  A \<open>Date\<close> holds a time of at most 8.64e15 milliseconds; past that it is an invalid
  \<open>Date\<close>, whose time value is \<open>NaN\<close>: \<open>toISOString()\<close> throws a \<open>RangeError\<close> on it, and a
  comparison with it is false. A natural number past the bound stands for such a time.
\<close>

definition max_time :: time where
  "max_time = 8640000000000000"

definition toISOString :: "time \<Rightarrow> error + time" where
  "toISOString t = (if t \<le> max_time then Inr t else Inl (RangeError ''Invalid time value''))"

definition expired :: "time \<Rightarrow> lock_doc \<Rightarrow> bool" where
  \<comment> \<open>\<open>existing.expires_at && new Date(existing.expires_at) < new Date()\<close>\<close>
  "expired current existing =
     (case expires_at existing of
        None \<Rightarrow> False
      | Some e \<Rightarrow> e < current \<and> current \<le> max_time)"

text \<open>
  An option of the second argument of \<open>acquire\<close>: left out (\<open>undefined\<close>), \<open>null\<close>, or
  given. The defaults of the destructuring apply to \<open>undefined\<close> only. \<open>ttlSeconds\<close>, when
  given, is a whole number of seconds, not negative. An attribute without a value is
  \<open>null\<close> in a document of the service: the \<open>None\<close> of the fields \<open>owner\<close> and
  \<open>expires_at\<close>.
\<close>

datatype 'a js_arg = Undefined | Null | Given 'a

definition arg_of :: "'a option \<Rightarrow> 'a js_arg" where
  \<comment> \<open>a value that is \<open>null\<close> or set, passed on as an option\<close>
  "arg_of x = (case x of None \<Rightarrow> Null | Some v \<Rightarrow> Given v)"

text \<open>
  \<^verbatim>\<open>
  async acquire(lockId, { owner = 'unknown', ttlSeconds = 600, force = false } = {}) {
    const documentId = this._docId(lockId);
    const now = new Date();
    const expiresAt = ttlSeconds ? new Date(now.getTime() + ttlSeconds * 1000) : null;
    try {
      await this.client.createDocument(this.databaseId, this.collectionId, documentId, {
        lock_id: lockId, owner, status: 'locked',
        created_at: now.toISOString(),
        expires_at: expiresAt ? expiresAt.toISOString() : null
      });
      return;
    } catch (error) {
      if (error.status !== 409) { throw error; }
    }
    const existing = await this.client.getDocument(this.databaseId, this.collectionId, documentId);
    if (!existing) {
      return this.acquire(lockId, { owner, ttlSeconds, force });
    }
    const expired = existing.expires_at && new Date(existing.expires_at) < new Date();
    const sameOwner = existing.owner === owner;
    if (!force && !expired && !sameOwner) {
      throw new Error(`Lock '${lockId}' is held by ...`);
    }
    await this.client.updateDocument(this.databaseId, this.collectionId, documentId, {
      owner, status: 'locked', created_at: now.toISOString(),
      expires_at: expiresAt ? expiresAt.toISOString() : null
    });
  }
  \<close>
  The call returns the new lock collection, or the error thrown. The object passed to
  \<open>createDocument\<close> is built inside the \<open>try\<close>: a \<open>RangeError\<close> of \<open>toISOString()\<close> is
  caught there, has no status 409 and is thrown again, before any request. Past that
  point the two times are valid, and the same two calls in the update succeed. The retry
  after a 409 followed by a missing document is the recursive call; in a collection that
  nothing else writes it is never taken, which is what the termination proof shows.
\<close>

function acquire ::
  "(string \<Rightarrow> string) \<Rightarrow> (nat \<Rightarrow> time) \<Rightarrow> nat \<Rightarrow> string \<Rightarrow> string js_arg \<Rightarrow> nat js_arg
     \<Rightarrow> bool \<Rightarrow> lock_store \<Rightarrow> error + lock_store" where
  "acquire md5 clock k lockId owner_arg ttl_arg force st =
     (let owner' = (case owner_arg of Undefined \<Rightarrow> Some ''unknown'' | Null \<Rightarrow> None
                    | Given x \<Rightarrow> Some x);
          ttlSeconds = (case ttl_arg of Undefined \<Rightarrow> Some 600 | Null \<Rightarrow> None
                        | Given t \<Rightarrow> Some t);
          documentId = lock_docId md5 lockId;
          now = clock k;
          expiresAt = (case ttlSeconds of
                         None \<Rightarrow> None
                       | Some t \<Rightarrow> if t \<noteq> 0 then Some (now + t * 1000) else None)
      in case (case toISOString now of
                 Inl err \<Rightarrow> Inl err
               | Inr created \<Rightarrow>
                   (case (case expiresAt of
                            None \<Rightarrow> Inr None
                          | Some x \<Rightarrow> (case toISOString x of Inl err \<Rightarrow> Inl err
                                      | Inr stamp \<Rightarrow> Inr (Some stamp))) of
                      Inl err \<Rightarrow> Inl err
                    | Inr expires \<Rightarrow>
                        createDocument st documentId
                          \<lparr>lock_id = lockId, owner = owner', status = Some ''locked'',
                           created_at = created, expires_at = expires\<rparr>)) of
           Inr st' \<Rightarrow> Inr st'
         | Inl err \<Rightarrow>
             if status_of err \<noteq> Some 409 then Inl err
             else (case getDocument st documentId of
                     None \<Rightarrow>
                       acquire md5 clock (k + 1) lockId (arg_of owner') (arg_of ttlSeconds) force st
                   | Some existing \<Rightarrow>
                       let expired = expired (clock (k + 1)) existing;
                           sameOwner = (owner existing = owner')
                       in if \<not> force \<and> \<not> expired \<and> \<not> sameOwner
                          then Inl (LockHeld lockId (or_else (owner existing) ''unknown'')
                                      (created_at existing))
                          else updateDocument st documentId
                                 (\<lambda>d. d\<lparr>owner := owner', status := Some ''locked'',
                                         created_at := now, expires_at := expiresAt\<rparr>)))"
  by pat_completeness auto
termination
  apply (relation "{}")
   apply simp
  apply (auto simp: createDocument_def getDocument_def toISOString_def
              split: if_splits option.splits sum.splits)
  done

declare acquire.simps [simp del]

text \<open>
  \<^verbatim>\<open>
  async release(lockId, owner) {
    const documentId = this._docId(lockId);
    const existing = await this.client.getDocument(this.databaseId, this.collectionId, documentId);
    if (!existing) return;
    if (owner && existing.owner && existing.owner !== owner) {
      throw new Error(`Cannot release lock '${lockId}' held by ${existing.owner}`);
    }
    await this.client.deleteDocument(this.databaseId, this.collectionId, documentId);
  }
  \<close>
\<close>

definition release ::
  "(string \<Rightarrow> string) \<Rightarrow> string \<Rightarrow> string option \<Rightarrow> lock_store \<Rightarrow> error + lock_store" where
  "release md5 lockId owner_opt st =
     (let documentId = lock_docId md5 lockId
      in case getDocument st documentId of
           None \<Rightarrow> Inr st
         | Some existing \<Rightarrow>
             if truthy owner_opt \<and> truthy (owner existing) \<and> owner existing \<noteq> owner_opt
             then Inl (ReleaseDenied lockId (or_else (owner existing) []))
             else Inr (deleteDocument st documentId))"

text \<open>
  What a call writes into the record: the owner after the default of the destructuring
  (\<open>null\<close> stays \<open>null\<close>), and the expiry after the default \<open>ttlSeconds = 600\<close> (a ttl
  of 0 or \<open>null\<close> gives no expiry). \<open>dates_ok\<close>: the creation time and the expiry are
  valid dates. \<open>arg_value\<close>: the same value passed where only its truthiness counts.
\<close>

definition owner_written :: "string js_arg \<Rightarrow> string option" where
  "owner_written owner_arg =
     (case owner_arg of Undefined \<Rightarrow> Some ''unknown'' | Null \<Rightarrow> None | Given x \<Rightarrow> Some x)"

definition new_expiry :: "time \<Rightarrow> nat js_arg \<Rightarrow> time option" where
  "new_expiry now ttl_arg =
     (case ttl_arg of
        Undefined \<Rightarrow> Some (now + 600000)
      | Null \<Rightarrow> None
      | Given t \<Rightarrow> if t = 0 then None else Some (now + t * 1000))"

definition dates_ok :: "time \<Rightarrow> nat js_arg \<Rightarrow> bool" where
  "dates_ok now ttl_arg \<longleftrightarrow>
     now \<le> max_time
     \<and> (case new_expiry now ttl_arg of None \<Rightarrow> True | Some x \<Rightarrow> x \<le> max_time)"

definition arg_value :: "'a js_arg \<Rightarrow> 'a option" where
  "arg_value a = (case a of Undefined \<Rightarrow> None | Null \<Rightarrow> None | Given v \<Rightarrow> Some v)"

text \<open>Expiry as the specification words it: the current time has reached \<open>expiresAt\<close>.\<close>

definition spec_expired :: "time \<Rightarrow> lock_doc \<Rightarrow> bool" where
  "spec_expired current existing =
     (case expires_at existing of None \<Rightarrow> False | Some e \<Rightarrow> e \<le> current)"

text \<open>A lock collection in which \<open>alice\<close> holds \<open>schema-apply\<close> until time 5000.\<close>

definition held_by_alice :: lock_store where
  "held_by_alice = [''lock:schema-apply'' \<mapsto>
     \<lparr>lock_id = ''schema-apply'', owner = Some ''alice'', status = Some ''locked'',
      created_at = 1000, expires_at = Some 5000\<rparr>]"

section \<open>Configuration, remote calls and the state of the world\<close>

text \<open>
  The fields of the tool object that the modelled methods read. \<open>lockOwner\<close> is
  \<open>process.env.AWM_LOCK_OWNER || os.hostname()\<close>; \<open>force\<close>, \<open>dryRun\<close> and
  \<open>nonInteractive\<close> are the command line flags \<open>--force\<close>, \<open>--dry-run\<close>, \<open>--yes\<close>.
\<close>

record config =
  appwriteProject :: "string option"
  appwriteKey :: "string option"
  databaseId :: "string option"
  lockOwner :: string
  force :: bool
  dryRun :: bool
  debug :: bool
  nonInteractive :: bool

text \<open>
  The calls that change the managed database: the \<open>appwrite databases ...\<close> commands run
  through \<open>execSync\<close> and the index request of the HTTP client. The database id, the same
  in every call, is left out. A \<open>CreateAttribute\<close> carries the kind of the command
  (\<open>string\<close>, \<open>integer\<close>, ...), the collection id, the key, the size (string attributes
  only), and the \<open>required\<close> and \<open>array\<close> flags.
\<close>

datatype remote_call =
    CreateCollection string string
  | CreateAttribute string string string "nat option" bool bool
  | EnsureIndex string string string "string list" "string list"
  | DeleteIndex string string
  | DeleteAttribute string string
  | DeleteCollection string

text \<open>
  How the remote side answers is a parameter: given the calls made so far and the next
  call, \<open>None\<close> when it succeeds and the error thrown when it fails.
\<close>

type_synonym remote = "remote_call list \<Rightarrow> remote_call \<Rightarrow> error option"

text \<open>
  The documents of the state collection \<open>awm_state\<close>, as \<open>listDocuments\<close> returns them
  under \<open>orderDesc("$createdAt")\<close>: newest first. The payload is kept parsed
  (\<open>_deserializePayload\<close> gives \<open>null\<close> for a missing or unparsable one); the compacted
  changes are pairs \<open>(id, name)\<close> for collections and \<open>(collection_id, key)\<close> for
  attributes and indexes, and a list of them is \<open>None\<close> when its key is absent from the
  payload (\<open>compactChanges\<close> writes all three).
\<close>

record compact_changes =
  cp_collections :: "(string \<times> string) list option"
  cp_attributes :: "(string \<times> string) list option"
  cp_indexes :: "(string \<times> string) list option"

record payload =
  p_type :: "string option"
  p_changes :: "compact_changes option"

record state_doc =
  doc_id :: string
  record_type :: string
  record_id :: string
  doc_status :: "string option"
  doc_payload :: "payload option"
  doc_created_at :: time
  doc_updated_at :: time

record world =
  locks :: lock_store
  state_docs :: "state_doc list"
  calls :: "remote_call list"

section \<open>Locked commands\<close>

text \<open>
  \<^verbatim>\<open>
  async withLock(lockId, fn) {
    if (!this.appwriteProject || !this.appwriteKey) {
      throw new Error('Appwrite credentials are required for this operation');
    }
    await this.lockManager.acquire(lockId, { owner: this.lockOwner, force: this.force });
    try {
      return await fn();
    } finally {
      await this.lockManager.release(lockId, this.lockOwner);
    }
  }
  \<close>
  The wrapped work \<open>fn\<close> takes the world and gives what it returns or throws, with the
  world it leaves. An error thrown by \<open>release\<close> in the \<open>finally\<close> block replaces the
  outcome of \<open>fn\<close>.
\<close>

definition withLock ::
  "config \<Rightarrow> (string \<Rightarrow> string) \<Rightarrow> (nat \<Rightarrow> time) \<Rightarrow> nat \<Rightarrow> string
     \<Rightarrow> (world \<Rightarrow> (error + 'r) \<times> world) \<Rightarrow> world \<Rightarrow> (error + 'r) \<times> world" where
  "withLock cfg md5 clock k lockId fn w =
     (if \<not> truthy (appwriteProject cfg) \<or> \<not> truthy (appwriteKey cfg)
      then (Inl (Error ''Appwrite credentials are required for this operation''), w)
      else case acquire md5 clock k lockId (Given (lockOwner cfg)) Undefined (force cfg)
                  (locks w) of
             Inl err \<Rightarrow> (Inl err, w)
           | Inr locks1 \<Rightarrow>
               (case fn (w\<lparr>locks := locks1\<rparr>) of
                  (r, w1) \<Rightarrow>
                    (case release md5 lockId (Some (lockOwner cfg)) (locks w1) of
                       Inl err \<Rightarrow> (Inl err, w1)
                     | Inr locks2 \<Rightarrow> (r, w1\<lparr>locks := locks2\<rparr>))))"

definition ensureConfig :: "config \<Rightarrow> error + unit" where
  "ensureConfig cfg =
     (if \<not> truthy (appwriteProject cfg) then Inl (Error ''APPWRITE_PROJECT_ID is required'')
      else if \<not> truthy (appwriteKey cfg) then Inl (Error ''APPWRITE_API_KEY is required'')
      else if \<not> truthy (databaseId cfg) then Inl (Error ''APPWRITE_DATABASE_ID is required'')
      else Inr ())"

text \<open>
  The four mutating commands, each \<open>this.ensureConfig(); await this.withLock('schema-...',
  async () => { ... })\<close>. The work inside the lock is the parameter \<open>body\<close>.
\<close>

definition apply_command ::
  "config \<Rightarrow> (string \<Rightarrow> string) \<Rightarrow> (nat \<Rightarrow> time) \<Rightarrow> nat
     \<Rightarrow> (world \<Rightarrow> (error + 'r) \<times> world) \<Rightarrow> world \<Rightarrow> (error + 'r) \<times> world" where
  "apply_command cfg md5 clock k body w =
     (case ensureConfig cfg of
        Inl err \<Rightarrow> (Inl err, w)
      | Inr _ \<Rightarrow> withLock cfg md5 clock k ''schema-apply'' body w)"

definition applyRelationships_command ::
  "config \<Rightarrow> (string \<Rightarrow> string) \<Rightarrow> (nat \<Rightarrow> time) \<Rightarrow> nat
     \<Rightarrow> (world \<Rightarrow> (error + 'r) \<times> world) \<Rightarrow> world \<Rightarrow> (error + 'r) \<times> world" where
  "applyRelationships_command cfg md5 clock k body w =
     (case ensureConfig cfg of
        Inl err \<Rightarrow> (Inl err, w)
      | Inr _ \<Rightarrow> withLock cfg md5 clock k ''schema-relationships'' body w)"

definition rollback_command ::
  "config \<Rightarrow> (string \<Rightarrow> string) \<Rightarrow> (nat \<Rightarrow> time) \<Rightarrow> nat
     \<Rightarrow> (world \<Rightarrow> (error + 'r) \<times> world) \<Rightarrow> world \<Rightarrow> (error + 'r) \<times> world" where
  "rollback_command cfg md5 clock k body w =
     (case ensureConfig cfg of
        Inl err \<Rightarrow> (Inl err, w)
      | Inr _ \<Rightarrow> withLock cfg md5 clock k ''schema-rollback'' body w)"

definition reset_command ::
  "config \<Rightarrow> (string \<Rightarrow> string) \<Rightarrow> (nat \<Rightarrow> time) \<Rightarrow> nat
     \<Rightarrow> (world \<Rightarrow> (error + 'r) \<times> world) \<Rightarrow> world \<Rightarrow> (error + 'r) \<times> world" where
  "reset_command cfg md5 clock k body w =
     (case ensureConfig cfg of
        Inl err \<Rightarrow> (Inl err, w)
      | Inr _ \<Rightarrow> withLock cfg md5 clock k ''schema-reset'' body w)"

text \<open>A configuration with credentials, and a world in which nothing is locked.\<close>

definition ci_config :: config where
  "ci_config = \<lparr>appwriteProject = Some ''proj'', appwriteKey = Some ''key'',
                databaseId = Some ''db'', lockOwner = ''ci-1'', force = False, dryRun = False,
                debug = False, nonInteractive = True\<rparr>"

definition idle_world :: world where
  "idle_world = \<lparr>locks = Map.empty, state_docs = [], calls = []\<rparr>"

section \<open>The parsed schema and the remote state\<close>

text \<open>
  The schema as \<open>parseSchema\<close> builds it. An object used as a dictionary is the list of
  its entries in the order of \<open>Object.entries\<close>. Of the decorators of an attribute only
  \<open>decorators.relationship\<close> is read by the change calculation; it is the field
  \<open>a_relationship\<close>. The fields of a record carry a short prefix of the record.
\<close>

datatype js_value = JBool bool | JNumber int | JString string

record relationship =
  r_to :: "string option"
  r_type :: "string option"
  r_twoWayKey :: "string option"
  r_onDelete :: "string option"

record attribute =
  a_type :: string
  a_array :: bool
  a_required :: bool
  a_size :: "nat option"
  a_default :: "js_value option"
  a_relationship :: "relationship option"

record index_decl =
  i_name :: "string option"
  i_attributes :: "string list option"
  i_fields :: "string list option"
  i_type :: "string option"
  i_orders :: "string option list option"

record collection =
  c_name :: "string option"
  c_attributes :: "(string \<times> attribute) list"
  c_indexes :: "index_decl list"

type_synonym schema = "(string \<times> collection) list"

text \<open>
  The remote state is the map that \<open>schemaInspector.describe()\<close> returns: collection id to
  the attributes and indexes of the collection (\<open>[]\<close> when the service lists none).
\<close>

record remote_attribute =
  ra_key :: string
  ra_type :: string

record remote_index =
  ri_key :: string

record remote_collection =
  rc_attributes :: "remote_attribute list"
  rc_indexes :: "remote_index list"

type_synonym remote_state = "string \<rightharpoonup> remote_collection"

section \<open>Kebab case\<close>

text \<open>
  \<^verbatim>\<open>
  toKebabCase(str) {
    return str.replace(/([a-z0-9])([A-Z])/g, '$1-$2').replace(/[\s_]+/g, '-').toLowerCase();
  }
  \<close>
\<close>

fun insert_hyphens :: "string \<Rightarrow> string" where
  \<comment> \<open>\<open>.replace(/([a-z0-9])([A-Z])/g, '$1-$2')\<close>: the search goes on after a match\<close>
  "insert_hyphens (a # b # cs) =
     (if (is_lower a \<or> is_digit a) \<and> is_upper b
      then a # CHR ''-'' # b # insert_hyphens cs
      else a # insert_hyphens (b # cs))"
| "insert_hyphens cs = cs"

definition is_separator :: "char \<Rightarrow> bool" where
  \<comment> \<open>the class \<open>[\s_]\<close>\<close>
  "is_separator c \<longleftrightarrow> is_space c \<or> c = CHR ''_''"

function collapse_separators :: "string \<Rightarrow> string" where
  \<comment> \<open>\<open>.replace(/[\s_]+/g, '-')\<close>: each maximal run becomes one hyphen\<close>
  "collapse_separators [] = []"
| "collapse_separators (c # cs) =
     (if is_separator c then CHR ''-'' # collapse_separators (dropWhile is_separator cs)
      else c # collapse_separators cs)"
  by pat_completeness auto
termination
  by (relation "measure length") (auto simp: length_dropWhile_le less_Suc_eq_le)

definition toKebabCase :: "string \<Rightarrow> string" where
  "toKebabCase str = toLowerCase (collapse_separators (insert_hyphens str))"

section \<open>The change calculation\<close>

record collection_create =
  cc_id :: string
  cc_name :: string
  cc_attributes :: "(string \<times> attribute) list"
  cc_indexes :: "index_decl list"

record attribute_create =
  ac_collection_id :: string
  ac_key :: string
  ac_type :: string
  ac_array :: bool
  ac_required :: bool
  ac_size :: "nat option"
  ac_default :: "js_value option"

record index_create =
  ic_collection_id :: string
  ic_key :: string
  ic_type :: string
  ic_attributes :: "string list"
  ic_orders :: "string option list"

record change_set =
  collections :: "collection_create list"
  attributes :: "attribute_create list"
  indexes :: "index_create list"

definition keyed :: "('a \<Rightarrow> string) \<Rightarrow> 'a list \<Rightarrow> (string \<rightharpoonup> 'a)" where
  \<comment> \<open>\<open>const m = new Map(); for (const x of xs) m.set(x.key, x);\<close>\<close>
  "keyed key xs = fold (\<lambda>x m. m(key x \<mapsto> x)) xs Map.empty"

fun join :: "string \<Rightarrow> string list \<Rightarrow> string" where
  "join sep [] = []"
| "join sep [x] = x"
| "join sep (x # y # ys) = x @ sep @ join sep (y # ys)"

definition index_attributes :: "index_decl \<Rightarrow> string list" where
  \<comment> \<open>\<open>index.attributes || index.fields || []\<close>; an array, also an empty one, is truthy\<close>
  "index_attributes index =
     (case i_attributes index of
        Some xs \<Rightarrow> xs
      | None \<Rightarrow> (case i_fields index of Some xs \<Rightarrow> xs | None \<Rightarrow> []))"

text \<open>
  \<^verbatim>\<open>
  for (const [attrName, attr] of Object.entries(coll.attributes || {})) {
    if (attr.decorators?.relationship) continue;
    if (!remoteAttributes.has(attrName)) {
      changes.attributes.push({ collection_id: collId, key: attrName, type: attr.type,
        array: !!attr.array, required: !!attr.required, size: attr.size, default: attr.default });
    }
  }
  \<close>
\<close>

definition attribute_entry :: "string \<Rightarrow> string \<Rightarrow> attribute \<Rightarrow> attribute_create" where
  \<comment> \<open>the object pushed onto \<open>changes.attributes\<close>\<close>
  "attribute_entry collId attrName attr =
     \<lparr>ac_collection_id = collId, ac_key = attrName, ac_type = a_type attr,
      ac_array = a_array attr, ac_required = a_required attr,
      ac_size = a_size attr, ac_default = a_default attr\<rparr>"

fun diff_attributes ::
  "string \<Rightarrow> (string \<rightharpoonup> remote_attribute) \<Rightarrow> (string \<times> attribute) list \<Rightarrow> change_set \<Rightarrow> change_set" where
  "diff_attributes collId remoteAttributes [] changes = changes"
| "diff_attributes collId remoteAttributes ((attrName, attr) # rest) changes =
     (if a_relationship attr \<noteq> None then diff_attributes collId remoteAttributes rest changes
      else if remoteAttributes attrName = None
      then diff_attributes collId remoteAttributes rest
             (changes\<lparr>attributes := attributes changes @ [attribute_entry collId attrName attr]\<rparr>)
      else diff_attributes collId remoteAttributes rest changes)"

text \<open>
  \<^verbatim>\<open>
  for (const index of coll.indexes || []) {
    const rawKey = index.name || `idx_${(index.attributes || index.fields || []).join('_')}`;
    const key = this.sanitizeIndexKey(rawKey);
    if (!remoteIndexes.has(key)) {
      changes.indexes.push({ collection_id: collId, key, type: index.type || 'key',
        attributes: index.attributes || index.fields || [], orders: index.orders || [] });
    }
  }
  \<close>
\<close>

definition index_key :: "(string \<Rightarrow> string) \<Rightarrow> index_decl \<Rightarrow> string" where
  \<comment> \<open>\<open>rawKey\<close>, sanitised\<close>
  "index_key md5 index =
     sanitizeIndexKey md5
       (Some (or_else (i_name index) (''idx_'' @ join ''_'' (index_attributes index))))"

definition index_entry :: "string \<Rightarrow> string \<Rightarrow> index_decl \<Rightarrow> index_create" where
  \<comment> \<open>the object pushed onto \<open>changes.indexes\<close>\<close>
  "index_entry collId key index =
     \<lparr>ic_collection_id = collId, ic_key = key, ic_type = or_else (i_type index) ''key'',
      ic_attributes = index_attributes index,
      ic_orders = (case i_orders index of None \<Rightarrow> [] | Some os \<Rightarrow> os)\<rparr>"

fun diff_indexes ::
  "(string \<Rightarrow> string) \<Rightarrow> string \<Rightarrow> (string \<rightharpoonup> remote_index) \<Rightarrow> index_decl list \<Rightarrow> change_set
     \<Rightarrow> change_set" where
  "diff_indexes md5 collId remoteIndexes [] changes = changes"
| "diff_indexes md5 collId remoteIndexes (index # rest) changes =
     (let key = index_key md5 index
      in if remoteIndexes key = None
         then diff_indexes md5 collId remoteIndexes rest
                (changes\<lparr>indexes := indexes changes @ [index_entry collId key index]\<rparr>)
         else diff_indexes md5 collId remoteIndexes rest changes)"

text \<open>
  \<^verbatim>\<open>
  for (const [name, coll] of Object.entries(schema.collections || {})) {
    const collId = this.toKebabCase(name);
    const remoteColl = remote.get(collId);
    if (!remoteColl) {
      changes.collections.push({ id: collId, name: coll.name || name,
        attributes: coll.attributes, indexes: coll.indexes });
      continue;
    }
    const remoteAttributes = new Map();
    for (const attr of remoteColl.attributes || []) { remoteAttributes.set(attr.key, attr); }
    ... the attribute loop ...
    const remoteIndexes = new Map();
    for (const idx of remoteColl.indexes || []) { remoteIndexes.set(idx.key, idx); }
    ... the index loop ...
  }
  return changes;
  \<close>
\<close>

definition collection_entry :: "string \<Rightarrow> collection \<Rightarrow> collection_create" where
  \<comment> \<open>the object pushed onto \<open>changes.collections\<close>\<close>
  "collection_entry name coll =
     \<lparr>cc_id = toKebabCase name, cc_name = or_else (c_name coll) name,
      cc_attributes = c_attributes coll, cc_indexes = c_indexes coll\<rparr>"

fun calculate_loop ::
  "(string \<Rightarrow> string) \<Rightarrow> remote_state \<Rightarrow> schema \<Rightarrow> change_set \<Rightarrow> change_set" where
  "calculate_loop md5 remote [] changes = changes"
| "calculate_loop md5 remote ((name, coll) # rest) changes =
     (let collId = toKebabCase name
      in case remote collId of
           None \<Rightarrow>
             calculate_loop md5 remote rest
               (changes\<lparr>collections := collections changes @ [collection_entry name coll]\<rparr>)
         | Some remoteColl \<Rightarrow>
             calculate_loop md5 remote rest
               (diff_indexes md5 collId (keyed ri_key (rc_indexes remoteColl)) (c_indexes coll)
                  (diff_attributes collId (keyed ra_key (rc_attributes remoteColl))
                     (c_attributes coll) changes)))"

definition calculateChanges :: "(string \<Rightarrow> string) \<Rightarrow> schema \<Rightarrow> remote_state \<Rightarrow> change_set" where
  "calculateChanges md5 schema remote =
     calculate_loop md5 remote schema \<lparr>collections = [], attributes = [], indexes = []\<rparr>"

section \<open>The relationship calculation\<close>

record relationship_create =
  pr_collection :: string
  pr_key :: string
  pr_to_collection :: string
  pr_type :: string
  pr_two_way_key :: "string option"
  pr_on_delete :: string

definition remoteRelationshipKeys :: "remote_state \<Rightarrow> string \<Rightarrow> string set" where
  \<comment> \<open>\<open>new Set((remoteColl?.attributes || []).filter(attr => attr.type === 'relationship')
      .map(attr => attr.key))\<close>\<close>
  "remoteRelationshipKeys remote collId =
     set (map ra_key (filter (\<lambda>attr. ra_type attr = ''relationship'')
            (case remote collId of None \<Rightarrow> [] | Some remoteColl \<Rightarrow> rc_attributes remoteColl)))"

definition pending_relationship ::
  "string \<Rightarrow> string \<Rightarrow> attribute \<Rightarrow> relationship \<Rightarrow> relationship_create" where
  "pending_relationship collId attrName attr rel =
     \<lparr>pr_collection = collId, pr_key = attrName,
      pr_to_collection = toKebabCase (or_else (r_to rel) (a_type attr)),
      pr_type = or_else (r_type rel) ''many-to-one'',
      pr_two_way_key = r_twoWayKey rel,
      pr_on_delete = or_else (r_onDelete rel) ''restrict''\<rparr>"

text \<open>
  \<^verbatim>\<open>
  for (const [attrName, attr] of Object.entries(coll.attributes || {})) {
    const rel = attr.decorators?.relationship;
    if (!rel) continue;
    if (remoteRelationshipKeys.has(attrName)) continue;
    pending.push({ collection: collId, key: attrName,
      to_collection: this.toKebabCase(rel.to || attr.type), type: rel.type || 'many-to-one',
      two_way_key: rel.twoWayKey, on_delete: rel.onDelete || 'restrict' });
  }
  \<close>
\<close>

fun pending_of_attributes ::
  "string \<Rightarrow> string set \<Rightarrow> (string \<times> attribute) list \<Rightarrow> relationship_create list
     \<Rightarrow> relationship_create list" where
  "pending_of_attributes collId remoteKeys [] pending = pending"
| "pending_of_attributes collId remoteKeys ((attrName, attr) # rest) pending =
     (case a_relationship attr of
        None \<Rightarrow> pending_of_attributes collId remoteKeys rest pending
      | Some rel \<Rightarrow>
          if attrName \<in> remoteKeys then pending_of_attributes collId remoteKeys rest pending
          else pending_of_attributes collId remoteKeys rest
                 (pending @ [pending_relationship collId attrName attr rel]))"

fun relationships_loop ::
  "remote_state \<Rightarrow> schema \<Rightarrow> relationship_create list \<Rightarrow> relationship_create list" where
  "relationships_loop remote [] pending = pending"
| "relationships_loop remote ((name, coll) # rest) pending =
     (let collId = toKebabCase name
      in relationships_loop remote rest
           (pending_of_attributes collId (remoteRelationshipKeys remote collId)
              (c_attributes coll) pending))"

definition calculateRelationships :: "schema \<Rightarrow> remote_state \<Rightarrow> relationship_create list" where
  "calculateRelationships schema remote = relationships_loop remote schema []"

text \<open>
  A schema with the collection \<open>UserProfile\<close> (a plain attribute, a relationship to
  \<open>Team\<close>, an index on the plain attribute) and the collection \<open>Team\<close>; and a remote
  state that has \<open>user-profile\<close> without attributes and lacks \<open>team\<close>.
\<close>

definition plain_email :: attribute where
  "plain_email = \<lparr>a_type = ''String'', a_array = False, a_required = True, a_size = Some 255,
                  a_default = None, a_relationship = None\<rparr>"

definition team_link :: attribute where
  "team_link = \<lparr>a_type = ''Team'', a_array = False, a_required = False, a_size = None,
                a_default = None,
                a_relationship = Some \<lparr>r_to = Some ''Team'', r_type = Some ''many-to-one'',
                                        r_twoWayKey = None, r_onDelete = None\<rparr>\<rparr>"

definition email_index :: index_decl where
  "email_index = \<lparr>i_name = None, i_attributes = Some [''email''], i_fields = None,
                  i_type = Some ''key'', i_orders = Some [None]\<rparr>"

definition sample_schema :: schema where
  "sample_schema =
     [(''UserProfile'', \<lparr>c_name = Some ''UserProfile'',
                         c_attributes = [(''email'', plain_email), (''team'', team_link)],
                         c_indexes = [email_index]\<rparr>),
      (''Team'', \<lparr>c_name = Some ''Team'', c_attributes = [], c_indexes = []\<rparr>)]"

definition sample_remote :: remote_state where
  "sample_remote = [''user-profile'' \<mapsto> \<lparr>rc_attributes = [], rc_indexes = []\<rparr>]"

section \<open>Applying a change set\<close>

text \<open>
  A call to the remote side, through \<open>execSync\<close> or through the HTTP client: the call is
  recorded, and it returns or throws as the remote side answers.
\<close>

definition run_call :: "remote \<Rightarrow> remote_call \<Rightarrow> world \<Rightarrow> (error + unit) \<times> world" where
  "run_call env call w =
     ((case env (calls w) call of None \<Rightarrow> Inr () | Some err \<Rightarrow> Inl err),
      w\<lparr>calls := calls w @ [call]\<rparr>)"

fun js_includes :: "string \<Rightarrow> string \<Rightarrow> bool" where
  \<comment> \<open>\<open>text.includes(part)\<close>\<close>
  "js_includes [] part = (part = [])"
| "js_includes (c # cs) part = (take (length part) (c # cs) = part \<or> js_includes cs part)"

definition already_exists :: "error \<Rightarrow> bool" where
  \<comment> \<open>\<open>error.stderr?.toString()?.includes('already exists')\<close>\<close>
  "already_exists err =
     (case stderr_of err of None \<Rightarrow> False | Some text \<Rightarrow> js_includes text ''already exists'')"

text \<open>
  \<^verbatim>\<open>
  async ensureIndex(databaseId, collectionId, { key, type = 'key', attributes = [], orders = [] }) {
    try {
      await this.request({ method: 'POST', path: `.../indexes`, body: { key, type, attributes, orders } });
    } catch (error) {
      if (error.status !== 409) throw error;
    }
  }
  \<close>
\<close>

definition ensureIndex :: "remote \<Rightarrow> remote_call \<Rightarrow> world \<Rightarrow> (error + unit) \<times> world" where
  "ensureIndex env call w =
     (case run_call env call w of
        (Inr u, w') \<Rightarrow> (Inr u, w')
      | (Inl err, w') \<Rightarrow> if status_of err \<noteq> Some 409 then (Inl err, w') else (Inr (), w'))"

text \<open>
  \<^verbatim>\<open>
  buildAttributeCommand(dbId, attr) {
    ...
    const req = attr.required ? '--required true' : '--required false';
    const arr = attr.array ? '--array true' : '--array false';
    const type = attr.type.toLowerCase();
    const size = attr.size || 255;
    switch (type) {
      case 'string': return `${base} create-string-attribute ${common} --size ${size} ${req} ${arr}`;
      case 'integer': case 'int': return `${base} create-integer-attribute ${common} ${req} ${arr}`;
      case 'float': case 'double': return `${base} create-float-attribute ${common} ${req} ${arr}`;
      case 'boolean': case 'bool': return `${base} create-boolean-attribute ${common} ${req} ${arr}`;
      case 'datetime': return `${base} create-datetime-attribute ${common} ${req} ${arr}`;
      case 'email': return `${base} create-email-attribute ${common} ${req} ${arr}`;
      case 'url': return `${base} create-url-attribute ${common} ${req} ${arr}`;
      default: throw new Error(`Unsupported attribute type: ${attr.type}`);
    }
  }
  \<close>
\<close>

definition buildAttributeCommand :: "attribute_create \<Rightarrow> error + remote_call" where
  "buildAttributeCommand attr =
     (let type = toLowerCase (ac_type attr);
          size = (case ac_size attr of None \<Rightarrow> 255 | Some n \<Rightarrow> if n = 0 then 255 else n);
          command = (\<lambda>kind sz. CreateAttribute kind (ac_collection_id attr) (ac_key attr) sz
                                  (ac_required attr) (ac_array attr))
      in if type = ''string'' then Inr (command ''string'' (Some size))
         else if type = ''integer'' \<or> type = ''int'' then Inr (command ''integer'' None)
         else if type = ''float'' \<or> type = ''double'' then Inr (command ''float'' None)
         else if type = ''boolean'' \<or> type = ''bool'' then Inr (command ''boolean'' None)
         else if type = ''datetime'' then Inr (command ''datetime'' None)
         else if type = ''email'' then Inr (command ''email'' None)
         else if type = ''url'' then Inr (command ''url'' None)
         else Inl (Error (''Unsupported attribute type: '' @ ac_type attr)))"

text \<open>
  \<^verbatim>\<open>
  for (const coll of changes.collections || []) {
    try {
      execSync(`appwrite databases create-collection ... --collection-id "${coll.id}"
                --name "${coll.name}" --enabled true`, { stdio: 'pipe' });
    } catch (error) {
      if (error.stderr?.toString()?.includes('already exists')) { console.log(...); }
      else { throw error; }
    }
  }
  \<close>
\<close>

fun create_collections :: "remote \<Rightarrow> collection_create list \<Rightarrow> world \<Rightarrow> (error + unit) \<times> world" where
  "create_collections env [] w = (Inr (), w)"
| "create_collections env (coll # rest) w =
     (case run_call env (CreateCollection (cc_id coll) (cc_name coll)) w of
        (Inr u, w') \<Rightarrow> create_collections env rest w'
      | (Inl err, w') \<Rightarrow>
          if already_exists err then create_collections env rest w' else (Inl err, w'))"

text \<open>
  \<^verbatim>\<open>
  for (const attr of changes.attributes || []) {
    try {
      const cmd = this.buildAttributeCommand(dbId, attr);
      execSync(cmd, { stdio: 'pipe' });
    } catch (error) {
      if (error.stderr?.toString()?.includes('already exists')) { console.log(...); }
      else { throw error; }
    }
  }
  \<close>
\<close>

fun create_attributes :: "remote \<Rightarrow> attribute_create list \<Rightarrow> world \<Rightarrow> (error + unit) \<times> world" where
  "create_attributes env [] w = (Inr (), w)"
| "create_attributes env (attr # rest) w =
     (case buildAttributeCommand attr of
        Inl err \<Rightarrow> if already_exists err then create_attributes env rest w else (Inl err, w)
      | Inr cmd \<Rightarrow>
          (case run_call env cmd w of
             (Inr u, w') \<Rightarrow> create_attributes env rest w'
           | (Inl err, w') \<Rightarrow>
               if already_exists err then create_attributes env rest w' else (Inl err, w')))"

text \<open>
  \<^verbatim>\<open>
  for (const idx of changes.indexes || []) {
    try {
      const indexKey = this.sanitizeIndexKey(idx.key);
      await this.appwriteClient.ensureIndex(dbId, idx.collection_id, {
        key: indexKey, type: idx.type || 'key', attributes: idx.attributes || [],
        orders: (idx.orders || []).filter(Boolean) });
    } catch (error) {
      if (error.status === 409) { console.log(...); }
      else { throw error; }
    }
  }
  \<close>
\<close>

definition index_call :: "(string \<Rightarrow> string) \<Rightarrow> index_create \<Rightarrow> remote_call" where
  "index_call md5 idx =
     EnsureIndex (ic_collection_id idx) (sanitizeIndexKey md5 (Some (ic_key idx)))
       (or_else (Some (ic_type idx)) ''key'') (ic_attributes idx)
       (concat (map (\<lambda>ord. case ord of None \<Rightarrow> [] | Some x \<Rightarrow> if x = [] then [] else [x])
                  (ic_orders idx)))"

fun create_indexes ::
  "(string \<Rightarrow> string) \<Rightarrow> remote \<Rightarrow> index_create list \<Rightarrow> world \<Rightarrow> (error + unit) \<times> world" where
  "create_indexes md5 env [] w = (Inr (), w)"
| "create_indexes md5 env (idx # rest) w =
     (case ensureIndex env (index_call md5 idx) w of
        (Inr u, w') \<Rightarrow> create_indexes md5 env rest w'
      | (Inl err, w') \<Rightarrow>
          if status_of err = Some 409 then create_indexes md5 env rest w' else (Inl err, w'))"

text \<open>
  \<open>applyChanges\<close> runs the three loops in turn. The configuration is the \<open>this\<close> of the
  method: it reads \<open>this.databaseId\<close> (left out of the calls) and \<open>this.debug\<close> (console
  output only), and nothing else.
\<close>

definition applyChanges ::
  "config \<Rightarrow> (string \<Rightarrow> string) \<Rightarrow> remote \<Rightarrow> change_set \<Rightarrow> world \<Rightarrow> (error + unit) \<times> world" where
  "applyChanges cfg md5 env changes w =
     (case create_collections env (collections changes) w of
        (Inl err, w1) \<Rightarrow> (Inl err, w1)
      | (Inr u, w1) \<Rightarrow>
          (case create_attributes env (attributes changes) w1 of
             (Inl err, w2) \<Rightarrow> (Inl err, w2)
           | (Inr u, w2) \<Rightarrow> create_indexes md5 env (indexes changes) w2))"

text \<open>
  The run in the words of the amended claim: the creation calls in the order
  collections, attributes, indexes (an attribute of an unsupported type has no call, only
  its error); a failed call is passed over when its error is tolerated for its kind, and
  the first other error ends the run.
\<close>

fun tolerated :: "remote_call \<Rightarrow> error \<Rightarrow> bool" where
  "tolerated (EnsureIndex c k t as os) err = (status_of err = Some 409)"
| "tolerated call err = already_exists err"

definition planned_calls :: "(string \<Rightarrow> string) \<Rightarrow> change_set \<Rightarrow> (error + remote_call) list" where
  "planned_calls md5 changes =
     map (\<lambda>coll. Inr (CreateCollection (cc_id coll) (cc_name coll))) (collections changes)
     @ map buildAttributeCommand (attributes changes)
     @ map (\<lambda>idx. Inr (index_call md5 idx)) (indexes changes)"

fun run_planned :: "remote \<Rightarrow> (error + remote_call) list \<Rightarrow> world \<Rightarrow> (error + unit) \<times> world" where
  "run_planned env [] w = (Inr (), w)"
| "run_planned env (Inl err # rest) w = (Inl err, w)"
| "run_planned env (Inr call # rest) w =
     (case run_call env call w of
        (Inr u, w') \<Rightarrow> run_planned env rest w'
      | (Inl err, w') \<Rightarrow> if tolerated call err then run_planned env rest w' else (Inl err, w'))"

text \<open>
  The run as the specification words it: an error that is not "already exists" ends the
  run unless the force flag is set, in which case the run goes on with the next entity.
\<close>

fun spec_run_planned ::
  "bool \<Rightarrow> remote \<Rightarrow> (error + remote_call) list \<Rightarrow> world \<Rightarrow> (error + unit) \<times> world" where
  "spec_run_planned forced env [] w = (Inr (), w)"
| "spec_run_planned forced env (Inl err # rest) w =
     (if forced then spec_run_planned forced env rest w else (Inl err, w))"
| "spec_run_planned forced env (Inr call # rest) w =
     (case run_call env call w of
        (Inr u, w') \<Rightarrow> spec_run_planned forced env rest w'
      | (Inl err, w') \<Rightarrow>
          if status_of err = Some 409 \<or> already_exists err \<or> forced
          then spec_run_planned forced env rest w' else (Inl err, w'))"

text \<open>
  A change set of two new collections, and a remote side that refuses every call with
  a connection error.
\<close>

definition two_collections :: change_set where
  "two_collections =
     \<lparr>collections = [\<lparr>cc_id = ''users'', cc_name = ''Users'', cc_attributes = [], cc_indexes = []\<rparr>,
                     \<lparr>cc_id = ''teams'', cc_name = ''Teams'', cc_attributes = [], cc_indexes = []\<rparr>],
      attributes = [], indexes = []\<rparr>"

definition unreachable_remote :: remote where
  "unreachable_remote = (\<lambda>log call. Some (CliError ''connect ECONNREFUSED'' 1))"

section \<open>Rollback\<close>

text \<open>
  \<^verbatim>\<open>
  async latestHistory(status = 'applied') {
    const docs = await this.client.listDocuments(this.databaseId, this.stateCollectionId,
      ['orderDesc("$createdAt")']);
    const doc = docs.find(item => item.record_type === 'history' && (!status || item.status === status));
    if (!doc) return null;
    return { recordId: doc.record_id, status: doc.status || null,
             payload: this._deserializePayload(doc.payload), ... };
  }

  async updateHistoryStatus(recordId, status) {
    const documentId = this._docId('history', recordId);
    await this.client.updateDocument(this.databaseId, this.stateCollectionId, documentId,
      { status, updated_at: new Date().toISOString() });
  }
  \<close>
  \<open>_docId(type, recordId)\<close> of the state store is the md5 hex digest of
  \<open>`${type}:${recordId}`\<close>. Updating a document that does not exist is refused by the
  remote side with status 404, and \<open>updateDocument\<close> lets that error through.
\<close>

definition latestHistory :: "string option \<Rightarrow> world \<Rightarrow> state_doc option" where
  "latestHistory wanted w =
     find (\<lambda>item. record_type item = ''history'' \<and> (\<not> truthy wanted \<or> doc_status item = wanted))
       (state_docs w)"

definition state_docId :: "(string \<Rightarrow> string) \<Rightarrow> string \<Rightarrow> string \<Rightarrow> string" where
  "state_docId md5 type recordId = md5 (type @ '':'' @ recordId)"

definition updateHistoryStatus ::
  "(string \<Rightarrow> string) \<Rightarrow> time \<Rightarrow> string \<Rightarrow> string \<Rightarrow> world \<Rightarrow> (error + unit) \<times> world" where
  "updateHistoryStatus md5 now recordId new_status w =
     (let documentId = state_docId md5 ''history'' recordId
      in if documentId \<in> set (map doc_id (state_docs w))
         then (Inr (),
               w\<lparr>state_docs :=
                    map (\<lambda>d. if doc_id d = documentId
                              then d\<lparr>doc_status := Some new_status, doc_updated_at := now\<rparr>
                              else d)
                      (state_docs w)\<rparr>)
         else (Inl (AppwriteError ''Document with the requested ID could not be found.'' 404), w))"

text \<open>
  \<^verbatim>\<open>
  for (const idx of indexes) {
    try {
      execSync(`appwrite databases delete-index ... --collection-id "${idx.collection_id}"
                --key "${idx.key}"`, { stdio: 'pipe' });
      console.log(`  - index ${idx.collection_id}.${idx.key}`);
    } catch (error) {
      console.log(`  o index already removed: ${idx.collection_id}.${idx.key}`);
    }
  }
  \<close>
  and the same loop for the attributes (\<open>delete-attribute\<close>) and for the collections
  (\<open>delete-collection --collection-id "${coll.id}"\<close>).
\<close>

fun delete_indexes :: "remote \<Rightarrow> (string \<times> string) list \<Rightarrow> world \<Rightarrow> world" where
  "delete_indexes env [] w = w"
| "delete_indexes env ((collection_id, key) # rest) w =
     (case run_call env (DeleteIndex collection_id key) w of
        (Inr u, w') \<Rightarrow> delete_indexes env rest w'
      | (Inl err, w') \<Rightarrow> delete_indexes env rest w')"

fun delete_attributes :: "remote \<Rightarrow> (string \<times> string) list \<Rightarrow> world \<Rightarrow> world" where
  "delete_attributes env [] w = w"
| "delete_attributes env ((collection_id, key) # rest) w =
     (case run_call env (DeleteAttribute collection_id key) w of
        (Inr u, w') \<Rightarrow> delete_attributes env rest w'
      | (Inl err, w') \<Rightarrow> delete_attributes env rest w')"

fun delete_collections :: "remote \<Rightarrow> (string \<times> string) list \<Rightarrow> world \<Rightarrow> world" where
  "delete_collections env [] w = w"
| "delete_collections env ((coll_id, name) # rest) w =
     (case run_call env (DeleteCollection coll_id) w of
        (Inr u, w') \<Rightarrow> delete_collections env rest w'
      | (Inl err, w') \<Rightarrow> delete_collections env rest w')"

text \<open>
  The work of \<open>rollback\<close> inside its lock:
  \<^verbatim>\<open>
  const history = await this.stateStore.latestHistory('applied');
  if (!history) { console.log(...); return; }
  const payload = history.payload || {};
  if (payload.type !== 'apply') { console.log(...); return; }
  const changes = payload.changes || {};
  const { indexes = [], attributes = [], collections = [] } = changes;
  if (this.dryRun) { ... return; }
  ... the three loops ...
  await this.stateStore.updateHistoryStatus(history.recordId, 'rolled_back');
  \<close>
  \<open>now\<close> is the reading of the clock in \<open>updateHistoryStatus\<close>.
\<close>

definition or_empty :: "'a list option \<Rightarrow> 'a list" where
  "or_empty xs = (case xs of None \<Rightarrow> [] | Some ys \<Rightarrow> ys)"

definition rollback_body ::
  "config \<Rightarrow> (string \<Rightarrow> string) \<Rightarrow> time \<Rightarrow> remote \<Rightarrow> world \<Rightarrow> (error + unit) \<times> world" where
  "rollback_body cfg md5 now env w =
     (case latestHistory (Some ''applied'') w of
        None \<Rightarrow> (Inr (), w)
      | Some history \<Rightarrow>
          (case doc_payload history of
             None \<Rightarrow> (Inr (), w)
           | Some payload \<Rightarrow>
               if p_type payload \<noteq> Some ''apply'' then (Inr (), w)
               else let changes = p_changes payload;
                        indexes' = (case changes of None \<Rightarrow> [] | Some c \<Rightarrow> or_empty (cp_indexes c));
                        attributes' = (case changes of None \<Rightarrow> [] | Some c \<Rightarrow> or_empty (cp_attributes c));
                        collections' = (case changes of None \<Rightarrow> [] | Some c \<Rightarrow> or_empty (cp_collections c))
                    in if dryRun cfg then (Inr (), w)
                       else updateHistoryStatus md5 now (record_id history) ''rolled_back''
                              (delete_collections env collections'
                                 (delete_attributes env attributes'
                                    (delete_indexes env indexes' w)))))"

text \<open>
  A world after one apply run that created the collection \<open>users\<close> with the attribute
  \<open>email\<close> and the index \<open>idx_email\<close>.
\<close>

definition applied_world :: world where
  "applied_world =
     \<lparr>locks = Map.empty,
      state_docs =
        [\<lparr>doc_id = ''history:7f3a'', record_type = ''history'', record_id = ''7f3a'',
          doc_status = Some ''applied'',
          doc_payload = Some \<lparr>p_type = Some ''apply'',
                              p_changes = Some \<lparr>cp_collections = Some [(''users'', ''Users'')],
                                                cp_attributes = Some [(''users'', ''email'')],
                                                cp_indexes = Some [(''users'', ''idx_email'')]\<rparr>\<rparr>,
          doc_created_at = 1000, doc_updated_at = 1000\<rparr>],
      calls = []\<rparr>"

section \<open>Properties of the index key sanitisation\<close>

lemma strip_leading_dropWhile: "strip_leading s = dropWhile (\<lambda>c. \<not> is_alnum c) s"
  by (induction s) simp_all

lemma replace_invalid_map:
  "replace_invalid s = map (\<lambda>c. if is_key_char c then c else CHR ''_'') s"
  by (induction s) simp_all

lemma strip_leading_starts_alnum:
  "strip_leading s = c # cs \<Longrightarrow> is_alnum c"
  by (induction s) (auto split: if_splits)

lemma sanitizeIndexKey_cases:
  "sanitizeIndexKey md5 key =
     (let r = replace_invalid (strip_leading (or_else key []))
      in if r = [] then ''idx_hash''
         else if length r \<le> 36 then r
         else ''idx_'' @ take 28 (md5 r))"
  by (simp add: sanitizeIndexKey_def or_else_def Let_def)

lemma sanitizeIndexKey_result:
  "sanitizeIndexKey md5 key =
     (let r = map (\<lambda>c. if is_key_char c then c else CHR ''_'')
                  (dropWhile (\<lambda>c. \<not> is_alnum c) (case key of None \<Rightarrow> [] | Some k \<Rightarrow> k))
      in if r = [] then ''idx_hash''
         else if 36 < length r then ''idx_'' @ take 28 (md5 r)
         else r)"
  by (cases key)
     (auto simp: sanitizeIndexKey_cases or_else_def Let_def strip_leading_dropWhile
                 replace_invalid_map)

text \<open>
  C8: for every raw key, let \<open>r\<close> be the key with its leading run of non-alphanumeric
  characters stripped and every remaining character outside \<open>[A-Za-z0-9._-]\<close> replaced
  by an underscore. When \<open>r\<close> is longer than 36 characters, \<open>sanitizeIndexKey\<close> returns
  \<open>idx_\<close> followed by the first 28 characters of the md5 hex digest of \<open>r\<close>; a
  non-empty \<open>r\<close> of at most 36 characters is returned as it is (the empty one is the
  subject of C10); and the key returned, a function of the input alone, is never longer
  than 36 characters.
\<close>

theorem sanitizeIndexKey_bounded:
  "(let r = map (\<lambda>c. if is_key_char c then c else CHR ''_'')
                (dropWhile (\<lambda>c. \<not> is_alnum c) (case key of None \<Rightarrow> [] | Some k \<Rightarrow> k))
    in (36 < length r \<longrightarrow> sanitizeIndexKey md5 key = ''idx_'' @ take 28 (md5 r))
       \<and> (r \<noteq> [] \<longrightarrow> length r \<le> 36 \<longrightarrow> sanitizeIndexKey md5 key = r))
   \<and> length (sanitizeIndexKey md5 key) \<le> 36"
proof -
  define r where "r = map (\<lambda>c. if is_key_char c then c else CHR ''_'')
                (dropWhile (\<lambda>c. \<not> is_alnum c) (case key of None \<Rightarrow> [] | Some k \<Rightarrow> k))"
  have e: "sanitizeIndexKey md5 key
           = (if r = [] then ''idx_hash''
              else if 36 < length r then ''idx_'' @ take 28 (md5 r) else r)"
    unfolding r_def by (simp add: sanitizeIndexKey_result Let_def)
  have "36 < length r \<longrightarrow> sanitizeIndexKey md5 key = ''idx_'' @ take 28 (md5 r)"
    by (auto simp: e)
  moreover have "r \<noteq> [] \<longrightarrow> length r \<le> 36 \<longrightarrow> sanitizeIndexKey md5 key = r"
    by (simp add: e)
  moreover have "length (sanitizeIndexKey md5 key) \<le> 36"
    by (auto simp: e)
  ultimately show ?thesis
    unfolding r_def Let_def by blast
qed

theorem sanitizeIndexKey_bounded_witness:
  "sanitizeIndexKey (\<lambda>_. ''0123456789abcdef0123456789abcdef'') (Some ''__idx user name!'')
     = ''idx_user_name_''
   \<and> sanitizeIndexKey (\<lambda>_. ''0123456789abcdef0123456789abcdef'')
       (Some ''idx_customer_billing_address_postal_code'')
     = ''idx_0123456789abcdef0123456789ab''"
proof -
  let ?md5 = "\<lambda>_ :: string. ''0123456789abcdef0123456789abcdef''"
  have c: "is_key_char = (\<lambda>c. c \<in> set ''abcdefghijklmnopqrstuvwxyzABCDEFGHIJKLMNOPQRSTUVWXYZ0123456789._-'')"
    by (auto simp: fun_eq_iff is_key_char_def is_alnum_def is_lower_def is_upper_def is_digit_def)
  have a: "is_alnum = (\<lambda>c. c \<in> set ''abcdefghijklmnopqrstuvwxyzABCDEFGHIJKLMNOPQRSTUVWXYZ0123456789'')"
    by (auto simp: fun_eq_iff is_alnum_def is_lower_def is_upper_def is_digit_def)
  have "sanitizeIndexKey ?md5 (Some ''__idx user name!'') = ''idx_user_name_''"
    using sanitizeIndexKey_bounded [of "Some ''__idx user name!''" ?md5]
    by (simp add: Let_def c a)
  moreover
  have "sanitizeIndexKey ?md5 (Some ''idx_customer_billing_address_postal_code'')
        = ''idx_0123456789abcdef0123456789ab''"
    using sanitizeIndexKey_bounded [of "Some ''idx_customer_billing_address_postal_code''" ?md5]
    by (simp add: Let_def c a)
  ultimately show ?thesis by blast
qed

text \<open>
  C10: when nothing of the class \<open>[A-Za-z0-9._-]\<close> is left after the leading run of
  non-alphanumeric characters is stripped (the empty string, \<open>null\<close>, \<open>undefined\<close>,
  punctuation only), \<open>sanitizeIndexKey\<close> returns \<open>idx_hash\<close>; and it never returns
  the empty string.
\<close>

theorem sanitizeIndexKey_fallback:
  "((\<forall>c \<in> set (strip_leading (or_else key [])). \<not> is_key_char c)
      \<longrightarrow> sanitizeIndexKey md5 key = ''idx_hash'')
   \<and> sanitizeIndexKey md5 key \<noteq> []"
proof
  show "(\<forall>c \<in> set (strip_leading (or_else key [])). \<not> is_key_char c)
     \<longrightarrow> sanitizeIndexKey md5 key = ''idx_hash''"
  proof
    assume h: "\<forall>c \<in> set (strip_leading (or_else key [])). \<not> is_key_char c"
    have "strip_leading (or_else key []) = []"
    proof (cases "strip_leading (or_else key [])")
      case Nil
      then show ?thesis .
    next
      case (Cons c cs)
      then have "is_alnum c" by (rule strip_leading_starts_alnum)
      with h Cons show ?thesis by (simp add: is_key_char_def)
    qed
    then show "sanitizeIndexKey md5 key = ''idx_hash''"
      by (simp add: sanitizeIndexKey_cases)
  qed
  show "sanitizeIndexKey md5 key \<noteq> []"
    by (simp add: sanitizeIndexKey_cases Let_def)
qed

theorem sanitizeIndexKey_fallback_witness:
  "sanitizeIndexKey (\<lambda>_. []) (Some ''!? #'') = ''idx_hash''
   \<and> sanitizeIndexKey (\<lambda>_. []) None = ''idx_hash''"
proof -
  have h: "\<forall>c \<in> set (strip_leading (or_else (Some ''!? #'') [])). \<not> is_key_char c"
    by (simp add: or_else_def is_alnum_def is_lower_def is_upper_def is_digit_def)
  have n: "\<forall>c \<in> set (strip_leading (or_else None [])). \<not> is_key_char c"
    by (simp add: or_else_def)
  from h n show ?thesis
    using sanitizeIndexKey_fallback [of "Some ''!? #''" "\<lambda>_. []"]
          sanitizeIndexKey_fallback [of None "\<lambda>_. []"]
    by blast
qed

section \<open>Properties of the index field parser\<close>

lemma loop_order_run:
  "length fs = length os \<Longrightarrow> \<forall>t \<in> set run. is_order_token t \<Longrightarrow>
   index_fields_loop (run @ rest) \<lparr>fields' = fs @ [f], orders' = os @ [ord]\<rparr>
   = index_fields_loop rest \<lparr>fields' = fs @ [f],
        orders' = os @ [case run of [] \<Rightarrow> ord | r # rs \<Rightarrow> Some (order_of (last (r # rs)))]\<rparr>"
proof (induction run arbitrary: ord)
  case Nil
  then show ?case by simp
next
  case (Cons r run)
  then show ?case
    by (cases run) (auto simp: is_order_token_def order_of_def Let_def)
qed

lemma loop_field:
  "\<not> is_order_token t \<or> fs = [] \<Longrightarrow>
   index_fields_loop (t # ts) \<lparr>fields' = fs, orders' = os\<rparr>
   = index_fields_loop ts \<lparr>fields' = fs @ [t], orders' = os @ [None]\<rparr>"
  by (auto simp: is_order_token_def Let_def)

lemma loop_entries:
  "length fs = length os \<Longrightarrow> (ts \<noteq> [] \<Longrightarrow> \<not> is_order_token (hd ts) \<or> fs = []) \<Longrightarrow>
   index_fields_loop ts \<lparr>fields' = fs, orders' = os\<rparr>
   = \<lparr>fields' = fs @ map fst (spec_index_entries ts),
      orders' = os @ map snd (spec_index_entries ts)\<rparr>"
proof (induction ts arbitrary: fs os rule: spec_index_entries.induct)
  case 1
  then show ?case by simp
next
  case (2 t ts)
  let ?run = "takeWhile is_order_token ts"
  let ?rest = "dropWhile is_order_token ts"
  let ?o = "case ?run of [] \<Rightarrow> None | r # rs \<Rightarrow> Some (order_of (last (r # rs)))"
  have "index_fields_loop (t # ts) \<lparr>fields' = fs, orders' = os\<rparr>
        = index_fields_loop (?run @ ?rest) \<lparr>fields' = fs @ [t], orders' = os @ [None]\<rparr>"
    using "2.prems"(2) by (subst loop_field) auto
  also have "\<dots> = index_fields_loop ?rest \<lparr>fields' = fs @ [t], orders' = os @ [?o]\<rparr>"
    using "2.prems"(1) by (subst loop_order_run) (auto dest: set_takeWhileD)
  also have "\<dots> = \<lparr>fields' = (fs @ [t]) @ map fst (spec_index_entries ?rest),
                     orders' = (os @ [?o]) @ map snd (spec_index_entries ?rest)\<rparr>"
  proof (rule "2.IH")
    show "length (fs @ [t]) = length (os @ [?o])" using "2.prems"(1) by simp
    show "\<not> is_order_token (hd ?rest) \<or> fs @ [t] = []" if "?rest \<noteq> []"
      using that hd_dropWhile by blast
  qed
  finally show ?case by simp
qed

lemma filter_dropWhile_orders:
  "filter (\<lambda>x. \<not> is_order_token x) (dropWhile is_order_token ts)
   = filter (\<lambda>x. \<not> is_order_token x) ts"
  by (induction ts) auto

lemma spec_fields_filter:
  "ts = [] \<or> \<not> is_order_token (hd ts) \<Longrightarrow>
   map fst (spec_index_entries ts) = filter (\<lambda>x. \<not> is_order_token x) ts"
proof (induction ts rule: spec_index_entries.induct)
  case 1
  then show ?case by simp
next
  case (2 t ts)
  have "dropWhile is_order_token ts = []
        \<or> \<not> is_order_token (hd (dropWhile is_order_token ts))"
    using hd_dropWhile by blast
  then show ?case using 2 by (simp add: filter_dropWhile_orders)
qed

lemma spec_fields_first:
  "map fst (spec_index_entries (t # ts)) = t # filter (\<lambda>x. \<not> is_order_token x) ts"
proof -
  have "dropWhile is_order_token ts = []
        \<or> \<not> is_order_token (hd (dropWhile is_order_token ts))"
    using hd_dropWhile by blast
  then show ?thesis by (simp add: spec_fields_filter filter_dropWhile_orders)
qed

text \<open>
  C9, as stated, says that a token equal to \<open>asc\<close> or \<open>desc\<close> is never added to the
  parsed fields. The source takes such a token for an order only when a field precedes
  it (\<open>&& fields.length\<close>): at the head of the list it becomes a field.
\<close>

theorem parseIndexFields_counterexample:
  "is_order_token ''asc'' \<and> ''asc'' \<in> set (fields' (parseIndexFields ''asc, name''))"
  by code_simp

text \<open>
  C9 (amended): in the bracketed token list of \<open>@@index\<close> or \<open>@@unique\<close> the first
  token is always a field; every later token equal to \<open>asc\<close> or \<open>desc\<close>
  (case-insensitive) is not added to the fields and sets the order (\<open>ASC\<close> or \<open>DESC\<close>)
  of the field before it; the other tokens become the fields in their written order,
  with a null order where no such token follows; fields and orders are parallel.
\<close>

theorem parseIndexFields_amended:
  "fields' (parseIndexFields s) =
     (case index_tokens s of
        [] \<Rightarrow> []
      | t # rest \<Rightarrow> t # filter (\<lambda>x. \<not> is_order_token x) rest)
   \<and> zip (fields' (parseIndexFields s)) (orders' (parseIndexFields s))
       = spec_index_entries (index_tokens s)
   \<and> length (orders' (parseIndexFields s)) = length (fields' (parseIndexFields s))"
proof -
  have "parseIndexFields s = \<lparr>fields' = map fst (spec_index_entries (index_tokens s)),
                              orders' = map snd (spec_index_entries (index_tokens s))\<rparr>"
    unfolding parseIndexFields_def by (subst loop_entries) auto
  then have f: "fields' (parseIndexFields s) = map fst (spec_index_entries (index_tokens s))"
    and o: "orders' (parseIndexFields s) = map snd (spec_index_entries (index_tokens s))"
    by simp_all
  have "fields' (parseIndexFields s) =
     (case index_tokens s of
        [] \<Rightarrow> []
      | t # rest \<Rightarrow> t # filter (\<lambda>x. \<not> is_order_token x) rest)"
    unfolding f
    by (cases "index_tokens s")
       (simp_all only: spec_fields_first list.case spec_index_entries.simps(1) list.map)
  moreover have "zip (fields' (parseIndexFields s)) (orders' (parseIndexFields s))
                 = spec_index_entries (index_tokens s)"
    unfolding f o by (rule zip_map_fst_snd)
  moreover have "length (orders' (parseIndexFields s)) = length (fields' (parseIndexFields s))"
    unfolding f o by simp
  ultimately show ?thesis by blast
qed

section \<open>Properties of the lock manager\<close>

lemma acquire_range:
  "\<not> dates_ok (clock k) ttl_arg \<Longrightarrow>
   acquire md5 clock k lockId owner_arg ttl_arg forced st = Inl (RangeError ''Invalid time value'')"
  by (subst acquire.simps)
     (auto simp: toISOString_def dates_ok_def new_expiry_def Let_def
           split: js_arg.splits if_splits)

lemma acquire_fresh:
  "dates_ok (clock k) ttl_arg \<Longrightarrow> st (lock_docId md5 lockId) = None \<Longrightarrow>
   acquire md5 clock k lockId owner_arg ttl_arg forced st
   = Inr (st(lock_docId md5 lockId \<mapsto>
            \<lparr>lock_id = lockId, owner = owner_written owner_arg, status = Some ''locked'',
             created_at = clock k, expires_at = new_expiry (clock k) ttl_arg\<rparr>))"
  by (subst acquire.simps)
     (auto simp: createDocument_def toISOString_def dates_ok_def owner_written_def
                 new_expiry_def Let_def
           split: js_arg.splits if_splits)

lemma acquire_existing:
  "dates_ok (clock k) ttl_arg \<Longrightarrow> st (lock_docId md5 lockId) = Some existing \<Longrightarrow>
   acquire md5 clock k lockId owner_arg ttl_arg forced st
   = (if forced \<or> expired (clock (Suc k)) existing
          \<or> owner existing = owner_written owner_arg
      then Inr (st(lock_docId md5 lockId \<mapsto>
                  existing\<lparr>owner := owner_written owner_arg, status := Some ''locked'',
                            created_at := clock k, expires_at := new_expiry (clock k) ttl_arg\<rparr>))
      else Inl (LockHeld lockId (or_else (owner existing) ''unknown'') (created_at existing)))"
  by (subst acquire.simps)
     (auto simp: createDocument_def getDocument_def updateDocument_def toISOString_def
                 dates_ok_def owner_written_def new_expiry_def Let_def
           split: js_arg.splits if_splits)

text \<open>
  C1, as stated, counts a record as expired once the current time has reached
  \<open>expiresAt\<close>. The source compares with \<open><\<close>: at the instant \<open>expiresAt\<close> itself the
  lock of another owner is still held and the call fails with the contention error.
\<close>

theorem acquire_counterexample:
  "spec_expired 5000 (the (held_by_alice ''lock:schema-apply''))
   \<and> acquire (\<lambda>s. s) (\<lambda>_. 5000) 0 ''schema-apply'' (Given ''bob'') Undefined False held_by_alice
     = Inl (LockHeld ''schema-apply'' ''alice'' 1000)"
  by (simp add: acquire_existing held_by_alice_def lock_docId_def spec_expired_def expired_def
                owner_written_def or_else_def dates_ok_def new_expiry_def max_time_def)

text \<open>
  C1 (amended): for every call \<open>acquire(lockId, owner, ttl, force)\<close> whose creation time
  and expiry are valid dates: if no lock record exists for the lock id, a record in
  state \<open>locked\<close> is created and the call succeeds; if a record exists and it is expired
  (it has an \<open>expiresAt\<close> and the current time is strictly later), or its owner equals
  the caller's owner, or \<open>force\<close> is set, the record's owner, status, creation time and
  expiry are overwritten and the call succeeds; otherwise the call fails with a
  contention error naming the current holder. When the creation time or the expiry is
  past the range of \<open>Date\<close>, the call throws a \<open>RangeError\<close> and the collection is left as
  it is.
\<close>

theorem acquire_amended:
  "(\<not> dates_ok (clock k) ttl_arg \<longrightarrow>
      acquire md5 clock k lockId owner_arg ttl_arg forced st
      = Inl (RangeError ''Invalid time value''))
   \<and> (dates_ok (clock k) ttl_arg \<longrightarrow>
        (st (lock_docId md5 lockId) = None \<longrightarrow>
           acquire md5 clock k lockId owner_arg ttl_arg forced st
           = Inr (st(lock_docId md5 lockId \<mapsto>
                    \<lparr>lock_id = lockId, owner = owner_written owner_arg,
                     status = Some ''locked'', created_at = clock k,
                     expires_at = new_expiry (clock k) ttl_arg\<rparr>)))
        \<and> (\<forall>existing. st (lock_docId md5 lockId) = Some existing \<longrightarrow>
             acquire md5 clock k lockId owner_arg ttl_arg forced st
             = (if (\<exists>e. expires_at existing = Some e \<and> e < clock (Suc k)
                        \<and> clock (Suc k) \<le> max_time)
                    \<or> owner existing = owner_written owner_arg \<or> forced
                then Inr (st(lock_docId md5 lockId \<mapsto>
                            existing\<lparr>owner := owner_written owner_arg,
                                      status := Some ''locked'', created_at := clock k,
                                      expires_at := new_expiry (clock k) ttl_arg\<rparr>))
                else Inl (LockHeld lockId (or_else (owner existing) ''unknown'')
                            (created_at existing)))))"
  by (auto simp: acquire_range acquire_fresh acquire_existing expired_def split: option.splits)

theorem acquire_amended_witness:
  "acquire (\<lambda>s. s) (\<lambda>_. 5001) 0 ''schema-apply'' (Given ''bob'') Undefined False held_by_alice
   = Inr [''lock:schema-apply'' \<mapsto>
       \<lparr>lock_id = ''schema-apply'', owner = Some ''bob'', status = Some ''locked'',
        created_at = 5001, expires_at = Some 605001\<rparr>]
   \<and> acquire (\<lambda>s. s) (\<lambda>_. 7) 0 ''schema-apply'' Null Null False Map.empty
   = Inr [''lock:schema-apply'' \<mapsto>
       \<lparr>lock_id = ''schema-apply'', owner = None, status = Some ''locked'',
        created_at = 7, expires_at = None\<rparr>]
   \<and> acquire (\<lambda>s. s) (\<lambda>_. 7) 0 ''schema-apply'' (Given ''bob'') (Given 8640000000000) False
       Map.empty
   = Inl (RangeError ''Invalid time value'')"
proof -
  have a: "held_by_alice (lock_docId (\<lambda>s. s) ''schema-apply'')
           = Some \<lparr>lock_id = ''schema-apply'', owner = Some ''alice'', status = Some ''locked'',
                   created_at = 1000, expires_at = Some 5000\<rparr>"
    by (simp add: held_by_alice_def lock_docId_def)
  have b: "(Map.empty :: lock_store) (lock_docId (\<lambda>s. s) ''schema-apply'') = None"
    by simp
  have d1: "dates_ok 5001 Undefined" and d2: "dates_ok 7 Null"
    and d3: "\<not> dates_ok 7 (Given 8640000000000)"
    by (simp_all add: dates_ok_def new_expiry_def max_time_def)
  from acquire_amended [of "\<lambda>_. 5001" 0 Undefined "\<lambda>s. s" "''schema-apply''" "Given ''bob''"
                           False held_by_alice] a d1
  have "acquire (\<lambda>s. s) (\<lambda>_. 5001) 0 ''schema-apply'' (Given ''bob'') Undefined False held_by_alice
   = Inr [''lock:schema-apply'' \<mapsto>
       \<lparr>lock_id = ''schema-apply'', owner = Some ''bob'', status = Some ''locked'',
        created_at = 5001, expires_at = Some 605001\<rparr>]"
    by (simp add: held_by_alice_def lock_docId_def owner_written_def new_expiry_def
                  max_time_def)
  moreover
  from acquire_amended [of "\<lambda>_. 7" 0 Null "\<lambda>s. s" "''schema-apply''" Null False Map.empty] b d2
  have "acquire (\<lambda>s. s) (\<lambda>_. 7) 0 ''schema-apply'' Null Null False Map.empty
   = Inr [''lock:schema-apply'' \<mapsto>
       \<lparr>lock_id = ''schema-apply'', owner = None, status = Some ''locked'',
        created_at = 7, expires_at = None\<rparr>]"
    by (simp add: lock_docId_def owner_written_def new_expiry_def)
  moreover
  from acquire_amended [of "\<lambda>_. 7" 0 "Given 8640000000000" "\<lambda>s. s" "''schema-apply''"
                           "Given ''bob''" False Map.empty] d3
  have "acquire (\<lambda>s. s) (\<lambda>_. 7) 0 ''schema-apply'' (Given ''bob'') (Given 8640000000000) False
          Map.empty
        = Inl (RangeError ''Invalid time value'')"
    by simp
  ultimately show ?thesis by blast
qed

lemma acquire_owner:
  assumes "acquire md5 clock k lockId owner_arg ttl_arg forced st = Inr st1"
  shows "\<exists>d. st1 (lock_docId md5 lockId) = Some d \<and> owner d = owner_written owner_arg"
proof -
  have ok: "dates_ok (clock k) ttl_arg"
    using assms acquire_range by fastforce
  show ?thesis
  proof (cases "st (lock_docId md5 lockId)")
    case None
    with assms ok show ?thesis by (auto simp: acquire_fresh)
  next
    case (Some existing)
    with assms ok show ?thesis by (auto simp: acquire_existing split: if_splits)
  qed
qed

text \<open>A call reads and writes the record of its own lock id only.\<close>

lemma acquire_frame:
  assumes "other \<noteq> lock_docId md5 lockId"
  shows "acquire md5 clock k lockId owner_arg ttl_arg forced (st(other := x))
         = (case acquire md5 clock k lockId owner_arg ttl_arg forced st of
              Inl err \<Rightarrow> Inl err
            | Inr st' \<Rightarrow> Inr (st'(other := x)))"
proof (cases "dates_ok (clock k) ttl_arg")
  case False
  then show ?thesis by (simp add: acquire_range)
next
  case True
  show ?thesis
  proof (cases "st (lock_docId md5 lockId)")
    case None
    with True assms show ?thesis
      by (simp add: acquire_fresh fun_upd_twist)
  next
    case (Some existing)
    with True assms show ?thesis
      by (simp add: acquire_existing fun_upd_twist)
  qed
qed

lemma release_missing:
  "st (lock_docId md5 lockId) = None \<Longrightarrow> release md5 lockId owner_opt st = Inr st"
  by (simp add: release_def getDocument_def)

lemma release_existing:
  "st (lock_docId md5 lockId) = Some existing \<Longrightarrow>
   release md5 lockId owner_opt st
   = (if truthy owner_opt \<and> truthy (owner existing) \<and> owner existing \<noteq> owner_opt
      then Inl (ReleaseDenied lockId (or_else (owner existing) []))
      else Inr (st(lock_docId md5 lockId := None)))"
  by (simp add: release_def getDocument_def deleteDocument_def)

lemma release_own:
  "st (lock_docId md5 lockId) = Some d \<Longrightarrow> owner d = owner_written owner_arg \<Longrightarrow>
   release md5 lockId (arg_value owner_arg) st = Inr (st(lock_docId md5 lockId := None))"
  by (cases owner_arg) (auto simp: release_existing truthy_def owner_written_def arg_value_def)

text \<open>
  C2, as stated, makes the call fail whenever the record's owner is set and differs from
  the caller's. The source asks first that the caller passed an owner (\<open>owner &&\<close>): a
  call without one, or with the empty string, deletes the record of another owner.
\<close>

theorem release_counterexample:
  "owner (the (held_by_alice ''lock:schema-apply'')) = Some ''alice''
   \<and> release (\<lambda>s. s) ''schema-apply'' None held_by_alice = Inr Map.empty
   \<and> release (\<lambda>s. s) ''schema-apply'' (Some []) held_by_alice = Inr Map.empty"
  by (simp add: release_def getDocument_def deleteDocument_def held_by_alice_def lock_docId_def
                truthy_def)

text \<open>
  C2 (amended): for every call \<open>release(lockId, owner)\<close>: if no lock record exists for the
  lock id, the call is a no-op success; if the caller passes a non-empty owner and the
  record's owner is set and differs from it, the call fails; otherwise the record is
  deleted. So \<open>acquire(id, ownerA)\<close> followed by \<open>release(id, ownerA)\<close> leaves no lock
  record, and a subsequent \<open>acquire(id, ownerB)\<close> succeeds and makes \<open>ownerB\<close> the owner
  (the call that \<open>acquire\<close> is on a collection without the record: it creates the
  record, unless its dates are past the range of \<open>Date\<close>).
\<close>

theorem release_amended:
  "(st (lock_docId md5 lockId) = None \<longrightarrow> release md5 lockId owner_opt st = Inr st)
   \<and> (\<forall>existing. st (lock_docId md5 lockId) = Some existing \<longrightarrow>
        release md5 lockId owner_opt st
        = (if truthy owner_opt \<and> truthy (owner existing) \<and> owner existing \<noteq> owner_opt
           then Inl (ReleaseDenied lockId (or_else (owner existing) []))
           else Inr (st(lock_docId md5 lockId := None))))
   \<and> (\<forall>st1. acquire md5 clock k lockId ownerA ttlA forceA st = Inr st1 \<longrightarrow>
        (\<exists>st2. release md5 lockId (arg_value ownerA) st1 = Inr st2
           \<and> st2 (lock_docId md5 lockId) = None
           \<and> acquire md5 clock' k' lockId ownerB ttlB forceB st2
             = (if dates_ok (clock' k') ttlB
                then Inr (st2(lock_docId md5 lockId \<mapsto>
                            \<lparr>lock_id = lockId, owner = owner_written ownerB,
                             status = Some ''locked'', created_at = clock' k',
                             expires_at = new_expiry (clock' k') ttlB\<rparr>))
                else Inl (RangeError ''Invalid time value''))))"
proof (intro conjI allI impI)
  show "release md5 lockId owner_opt st = Inr st" if "st (lock_docId md5 lockId) = None"
    using that by (rule release_missing)
next
  fix existing
  assume "st (lock_docId md5 lockId) = Some existing"
  then show "release md5 lockId owner_opt st
        = (if truthy owner_opt \<and> truthy (owner existing) \<and> owner existing \<noteq> owner_opt
           then Inl (ReleaseDenied lockId (or_else (owner existing) []))
           else Inr (st(lock_docId md5 lockId := None)))"
    by (rule release_existing)
next
  fix st1
  assume a: "acquire md5 clock k lockId ownerA ttlA forceA st = Inr st1"
  let ?id = "lock_docId md5 lockId"
  from acquire_owner [OF a] obtain d where d: "st1 ?id = Some d"
    "owner d = owner_written ownerA" by blast
  then have r: "release md5 lockId (arg_value ownerA) st1 = Inr (st1(?id := None))"
    by (rule release_own)
  have f: "(st1(?id := None)) ?id = None" by simp
  have "acquire md5 clock' k' lockId ownerB ttlB forceB (st1(?id := None))
        = (if dates_ok (clock' k') ttlB
           then Inr ((st1(?id := None))(?id \<mapsto>
                  \<lparr>lock_id = lockId, owner = owner_written ownerB, status = Some ''locked'',
                   created_at = clock' k', expires_at = new_expiry (clock' k') ttlB\<rparr>))
           else Inl (RangeError ''Invalid time value''))"
    using f by (simp add: acquire_fresh acquire_range)
  with r f show "\<exists>st2. release md5 lockId (arg_value ownerA) st1 = Inr st2
           \<and> st2 (lock_docId md5 lockId) = None
           \<and> acquire md5 clock' k' lockId ownerB ttlB forceB st2
             = (if dates_ok (clock' k') ttlB
                then Inr (st2(lock_docId md5 lockId \<mapsto>
                            \<lparr>lock_id = lockId, owner = owner_written ownerB,
                             status = Some ''locked'', created_at = clock' k',
                             expires_at = new_expiry (clock' k') ttlB\<rparr>))
                else Inl (RangeError ''Invalid time value''))"
    by (intro exI [of _ "st1(?id := None)"]) simp
qed

theorem release_amended_witness:
  "release (\<lambda>s. s) ''schema-apply'' (Some ''bob'') held_by_alice
     = Inl (ReleaseDenied ''schema-apply'' ''alice'')
   \<and> release (\<lambda>s. s) ''schema-apply'' (Some ''alice'') held_by_alice = Inr Map.empty
   \<and> release (\<lambda>s. s) ''schema-apply'' (Some ''alice'') Map.empty = Inr Map.empty
   \<and> acquire (\<lambda>s. s) (\<lambda>_. 1000) 0 ''schema-apply'' (Given ''alice'') (Given 4) False Map.empty
     = Inr held_by_alice
   \<and> acquire (\<lambda>s. s) (\<lambda>_. 2000) 0 ''schema-apply'' (Given ''bob'') (Given 0) False Map.empty
     = Inr [''lock:schema-apply'' \<mapsto>
         \<lparr>lock_id = ''schema-apply'', owner = Some ''bob'', status = Some ''locked'',
          created_at = 2000, expires_at = None\<rparr>]"
proof -
  have a: "held_by_alice (lock_docId (\<lambda>s. s) ''schema-apply'')
           = Some \<lparr>lock_id = ''schema-apply'', owner = Some ''alice'', status = Some ''locked'',
                   created_at = 1000, expires_at = Some 5000\<rparr>"
    by (simp add: held_by_alice_def lock_docId_def)
  have b: "(Map.empty :: lock_store) (lock_docId (\<lambda>s. s) ''schema-apply'') = None"
    by simp
  have d1: "dates_ok 1000 (Given 4)" and d2: "dates_ok 2000 (Given 0)"
    by (simp_all add: dates_ok_def new_expiry_def max_time_def)
  have c: "acquire (\<lambda>s. s) (\<lambda>_. 1000) 0 ''schema-apply'' (Given ''alice'') (Given 4) False Map.empty
           = Inr held_by_alice"
    using d1 by (simp add: acquire_fresh held_by_alice_def lock_docId_def owner_written_def
                           new_expiry_def)
  note t = release_amended [of _ "\<lambda>s. s" "''schema-apply''" _ "\<lambda>_. 1000" 0 "Given ''alice''"
                               "Given 4" False "\<lambda>_. 2000" 0 "Given ''bob''" "Given 0" False]
  have "release (\<lambda>s. s) ''schema-apply'' (Some ''bob'') held_by_alice
     = Inl (ReleaseDenied ''schema-apply'' ''alice'')"
    using t [of held_by_alice "Some ''bob''"] a by (simp add: truthy_def or_else_def)
  moreover have r: "release (\<lambda>s. s) ''schema-apply'' (Some ''alice'') held_by_alice = Inr Map.empty"
    using t [of held_by_alice "Some ''alice''"] a
    by (simp add: truthy_def held_by_alice_def lock_docId_def)
  moreover have "release (\<lambda>s. s) ''schema-apply'' (Some ''alice'') Map.empty = Inr Map.empty"
    using t [of Map.empty "Some ''alice''"] b by simp
  moreover have "acquire (\<lambda>s. s) (\<lambda>_. 2000) 0 ''schema-apply'' (Given ''bob'') (Given 0) False Map.empty
     = Inr [''lock:schema-apply'' \<mapsto>
         \<lparr>lock_id = ''schema-apply'', owner = Some ''bob'', status = Some ''locked'',
          created_at = 2000, expires_at = None\<rparr>]"
    using t [of Map.empty "Some ''alice''"] c r d2
    by (simp add: acquire_fresh lock_docId_def owner_written_def new_expiry_def)
  ultimately show ?thesis using c by blast
qed

section \<open>Properties of the locked commands\<close>

lemma withLock_refused:
  assumes "truthy (appwriteProject cfg)" "truthy (appwriteKey cfg)"
    and "acquire md5 clock k lockId (Given (lockOwner cfg)) Undefined (force cfg) (locks w)
         = Inl err"
  shows "withLock cfg md5 clock k lockId fn w = (Inl err, w)"
  using assms by (simp add: withLock_def)

lemma withLock_released:
  assumes "truthy (appwriteProject cfg)" "truthy (appwriteKey cfg)"
    and a: "acquire md5 clock k lockId (Given (lockOwner cfg)) Undefined (force cfg) (locks w)
            = Inr locks1"
    and f: "fn (w\<lparr>locks := locks1\<rparr>) = (r, w1)"
    and keep: "locks w1 (lock_docId md5 lockId) = locks1 (lock_docId md5 lockId)"
  shows "withLock cfg md5 clock k lockId fn w
         = (r, w1\<lparr>locks := (locks w1)(lock_docId md5 lockId := None)\<rparr>)"
proof -
  from acquire_owner [OF a] keep obtain d where
    "locks w1 (lock_docId md5 lockId) = Some d"
    "owner d = owner_written (Given (lockOwner cfg))"
    by auto
  then have "release md5 lockId (arg_value (Given (lockOwner cfg))) (locks w1)
             = Inr ((locks w1)(lock_docId md5 lockId := None))"
    by (rule release_own)
  then have "release md5 lockId (Some (lockOwner cfg)) (locks w1)
             = Inr ((locks w1)(lock_docId md5 lockId := None))"
    by (simp add: arg_value_def)
  with assms(1,2) a f show ?thesis by (simp add: withLock_def)
qed

text \<open>
  The lock records of the four kinds: with an md5 that tells the four strings
  \<open>lock:schema-...\<close> apart, the four document ids differ.
\<close>

lemma lock_ids_distinct:
  assumes "inj_on md5 ((\<lambda>lockId. ''lock:'' @ lockId)
             ` set [''schema-apply'', ''schema-relationships'', ''schema-rollback'',
                    ''schema-reset''])"
  shows "distinct (map (lock_docId md5)
           [''schema-apply'', ''schema-relationships'', ''schema-rollback'', ''schema-reset''])"
proof -
  have "distinct (map (\<lambda>lockId. ''lock:'' @ lockId)
          [''schema-apply'', ''schema-relationships'', ''schema-rollback'', ''schema-reset''])"
    by simp
  then have "distinct (map md5 (map (\<lambda>lockId. ''lock:'' @ lockId)
          [''schema-apply'', ''schema-relationships'', ''schema-rollback'', ''schema-reset'']))"
    using assms by (simp only: distinct_map set_map)
  then show ?thesis
    by (simp add: lock_docId_def)
qed

lemma other_lock_id:
  assumes inj: "inj_on md5 ((\<lambda>lockId. ''lock:'' @ lockId)
             ` set [''schema-apply'', ''schema-relationships'', ''schema-rollback'',
                    ''schema-reset''])"
    and "lockId \<in> set [''schema-apply'', ''schema-relationships'', ''schema-rollback'',
                        ''schema-reset'']"
    and "other \<in> set [''schema-apply'', ''schema-relationships'', ''schema-rollback'',
                       ''schema-reset'']"
    and "other \<noteq> lockId"
  shows "lock_docId md5 other \<noteq> lock_docId md5 lockId"
proof
  assume "lock_docId md5 other = lock_docId md5 lockId"
  then have "md5 (''lock:'' @ other) = md5 (''lock:'' @ lockId)"
    by (simp add: lock_docId_def)
  moreover from assms(3) have "''lock:'' @ other \<in> (\<lambda>lockId. ''lock:'' @ lockId)
             ` set [''schema-apply'', ''schema-relationships'', ''schema-rollback'',
                    ''schema-reset'']"
    by (rule imageI)
  moreover from assms(2) have "''lock:'' @ lockId \<in> (\<lambda>lockId. ''lock:'' @ lockId)
             ` set [''schema-apply'', ''schema-relationships'', ''schema-rollback'',
                    ''schema-reset'']"
    by (rule imageI)
  ultimately have "''lock:'' @ other = ''lock:'' @ lockId"
    by (rule inj_onD [OF inj])
  with assms(4) show False by simp
qed

text \<open>
  C3: each of the four mutating commands (apply, relationships, rollback, reset) takes
  the lock of its own kind before the work starts: when the lock cannot be acquired the
  command fails with that error and the work is not run. When it is acquired, the work
  runs with the lock held and, whatever the work returns or throws, the lock record is
  deleted before the command returns with that outcome. The lock is the one of the kind:
  the four lock ids are four different records (for an md5 that tells the four strings
  \<open>lock:schema-...\<close> apart), and a record held under the id of another kind, by
  whomever and until whenever, changes nothing of the command's own acquisition.
\<close>

theorem commands_hold_lock:
  assumes "(command, lockId) \<in> set [(apply_command, ''schema-apply''),
                                     (applyRelationships_command, ''schema-relationships''),
                                     (rollback_command, ''schema-rollback''),
                                     (reset_command, ''schema-reset'')]"
    and "ensureConfig cfg = Inr ()"
  shows "(\<forall>err. acquire md5 clock k lockId (Given (lockOwner cfg)) Undefined (force cfg) (locks w)
                 = Inl err
            \<longrightarrow> command cfg md5 clock k body w = (Inl err, w))
       \<and> (\<forall>locks1 r w1.
            acquire md5 clock k lockId (Given (lockOwner cfg)) Undefined (force cfg) (locks w)
              = Inr locks1
            \<longrightarrow> body (w\<lparr>locks := locks1\<rparr>) = (r, w1)
            \<longrightarrow> locks w1 (lock_docId md5 lockId) = locks1 (lock_docId md5 lockId)
            \<longrightarrow> (\<exists>d. locks1 (lock_docId md5 lockId) = Some d \<and> owner d = Some (lockOwner cfg))
                \<and> command cfg md5 clock k body w
                    = (r, w1\<lparr>locks := (locks w1)(lock_docId md5 lockId := None)\<rparr>))
       \<and> distinct [''schema-apply'', ''schema-relationships'', ''schema-rollback'', ''schema-reset'']
       \<and> (inj_on md5 ((\<lambda>lockId. ''lock:'' @ lockId)
             ` set [''schema-apply'', ''schema-relationships'', ''schema-rollback'',
                    ''schema-reset''])
           \<longrightarrow> distinct (map (lock_docId md5)
                   [''schema-apply'', ''schema-relationships'', ''schema-rollback'',
                    ''schema-reset''])
               \<and> (\<forall>other held.
                     other \<in> set [''schema-apply'', ''schema-relationships'',
                                   ''schema-rollback'', ''schema-reset'']
                     \<longrightarrow> other \<noteq> lockId
                     \<longrightarrow> acquire md5 clock k lockId (Given (lockOwner cfg)) Undefined (force cfg)
                           ((locks w)(lock_docId md5 other := held))
                         = (case acquire md5 clock k lockId (Given (lockOwner cfg)) Undefined
                                   (force cfg) (locks w) of
                              Inl err \<Rightarrow> Inl err
                            | Inr locks1 \<Rightarrow> Inr (locks1(lock_docId md5 other := held)))))"
proof -
  from assms(2) have c: "truthy (appwriteProject cfg)" "truthy (appwriteKey cfg)"
    by (auto simp: ensureConfig_def split: if_splits)
  from assms have eq: "command cfg md5 clock k body w = withLock cfg md5 clock k lockId body w"
    by (auto simp: apply_command_def applyRelationships_command_def rollback_command_def
                   reset_command_def)
  from assms(1) have kind: "lockId \<in> set [''schema-apply'', ''schema-relationships'',
                                           ''schema-rollback'', ''schema-reset'']"
    by auto
  show ?thesis
  proof (intro conjI allI impI)
    fix err
    assume "acquire md5 clock k lockId (Given (lockOwner cfg)) Undefined (force cfg) (locks w)
            = Inl err"
    with c show "command cfg md5 clock k body w = (Inl err, w)"
      unfolding eq by (rule withLock_refused)
  next
    fix locks1 r w1
    assume a: "acquire md5 clock k lockId (Given (lockOwner cfg)) Undefined (force cfg) (locks w)
               = Inr locks1"
    from acquire_owner [OF a]
    show "\<exists>d. locks1 (lock_docId md5 lockId) = Some d \<and> owner d = Some (lockOwner cfg)"
      by (simp add: owner_written_def)
    assume "body (w\<lparr>locks := locks1\<rparr>) = (r, w1)"
      and "locks w1 (lock_docId md5 lockId) = locks1 (lock_docId md5 lockId)"
    with c a show "command cfg md5 clock k body w
                   = (r, w1\<lparr>locks := (locks w1)(lock_docId md5 lockId := None)\<rparr>)"
      unfolding eq by (rule withLock_released)
  next
    show "distinct [''schema-apply'', ''schema-relationships'', ''schema-rollback'', ''schema-reset'']"
      by simp
  next
    assume "inj_on md5 ((\<lambda>lockId. ''lock:'' @ lockId)
             ` set [''schema-apply'', ''schema-relationships'', ''schema-rollback'',
                    ''schema-reset''])"
    then show "distinct (map (lock_docId md5)
                   [''schema-apply'', ''schema-relationships'', ''schema-rollback'',
                    ''schema-reset''])"
      by (rule lock_ids_distinct)
  next
    fix other held
    assume inj: "inj_on md5 ((\<lambda>lockId. ''lock:'' @ lockId)
             ` set [''schema-apply'', ''schema-relationships'', ''schema-rollback'',
                    ''schema-reset''])"
      and o: "other \<in> set [''schema-apply'', ''schema-relationships'',
                            ''schema-rollback'', ''schema-reset'']"
      and n: "other \<noteq> lockId"
    from inj kind o n have "lock_docId md5 other \<noteq> lock_docId md5 lockId"
      by (rule other_lock_id)
    then show "acquire md5 clock k lockId (Given (lockOwner cfg)) Undefined (force cfg)
                 ((locks w)(lock_docId md5 other := held))
               = (case acquire md5 clock k lockId (Given (lockOwner cfg)) Undefined
                         (force cfg) (locks w) of
                    Inl err \<Rightarrow> Inl err
                  | Inr locks1 \<Rightarrow> Inr (locks1(lock_docId md5 other := held)))"
      by (rule acquire_frame)
  qed
qed

theorem commands_hold_lock_witness:
  "rollback_command ci_config (\<lambda>s. s) (\<lambda>_. 1000) 0
     (\<lambda>w. (Inl (Error ''boom'') :: error + unit, w\<lparr>calls := [DeleteCollection ''users'']\<rparr>))
     idle_world
   = (Inl (Error ''boom''), idle_world\<lparr>calls := [DeleteCollection ''users'']\<rparr>)
   \<and> apply_command ci_config (\<lambda>s. s) (\<lambda>_. 5000) 0
       (\<lambda>w. (Inr () :: error + unit, w)) (idle_world\<lparr>locks := held_by_alice\<rparr>)
     = (Inl (LockHeld ''schema-apply'' ''alice'' 1000), idle_world\<lparr>locks := held_by_alice\<rparr>)
   \<and> rollback_command ci_config (\<lambda>s. s) (\<lambda>_. 1000) 0
       (\<lambda>w. (Inr () :: error + unit, w)) (idle_world\<lparr>locks := held_by_alice\<rparr>)
     = (Inr (), idle_world\<lparr>locks := held_by_alice\<rparr>)"
proof -
  let ?kinds = "[(apply_command, ''schema-apply''),
                 (applyRelationships_command, ''schema-relationships''),
                 (rollback_command, ''schema-rollback''),
                 (reset_command, ''schema-reset'')]"
  let ?ids = "[''schema-apply'', ''schema-relationships'', ''schema-rollback'', ''schema-reset'']"
  have m: "(rollback_command, ''schema-rollback'') \<in> set ?kinds"
    by simp
  have m': "(apply_command, ''schema-apply'') \<in> set ?kinds"
    by simp
  have e: "ensureConfig ci_config = Inr ()"
    by (simp add: ensureConfig_def ci_config_def truthy_def)
  have inj: "inj_on (\<lambda>s :: string. s) ((\<lambda>lockId. ''lock:'' @ lockId) ` set ?ids)"
    by simp
  let ?l1 = "[''lock:schema-rollback'' \<mapsto>
       \<lparr>lock_id = ''schema-rollback'', owner = Some ''ci-1'', status = Some ''locked'',
        created_at = 1000, expires_at = Some 601000\<rparr>]"
  have ok: "dates_ok 1000 Undefined" "dates_ok 5000 Undefined"
    by (simp_all add: dates_ok_def new_expiry_def max_time_def)
  have a: "acquire (\<lambda>s. s) (\<lambda>_. 1000) 0 ''schema-rollback'' (Given (lockOwner ci_config))
             Undefined (force ci_config) (locks idle_world) = Inr ?l1"
    using ok by (simp add: acquire_fresh idle_world_def lock_docId_def ci_config_def
                           owner_written_def new_expiry_def)
  have a': "acquire (\<lambda>s. s) (\<lambda>_. 5000) 0 ''schema-apply'' (Given (lockOwner ci_config))
             Undefined (force ci_config) (locks (idle_world\<lparr>locks := held_by_alice\<rparr>))
            = Inl (LockHeld ''schema-apply'' ''alice'' 1000)"
    using ok by (simp add: acquire_existing held_by_alice_def lock_docId_def ci_config_def
                           expired_def owner_written_def or_else_def)
  note t = commands_hold_lock [OF m e, of "\<lambda>s. s" "\<lambda>_. 1000" 0 idle_world]
  from t [of "\<lambda>w. (Inl (Error ''boom'') :: error + unit, w\<lparr>calls := [DeleteCollection ''users'']\<rparr>)"] a
  have first: "rollback_command ci_config (\<lambda>s. s) (\<lambda>_. 1000) 0
     (\<lambda>w. (Inl (Error ''boom'') :: error + unit, w\<lparr>calls := [DeleteCollection ''users'']\<rparr>))
     idle_world
   = (Inl (Error ''boom''), idle_world\<lparr>calls := [DeleteCollection ''users'']\<rparr>)"
    by (simp add: idle_world_def lock_docId_def)
  from commands_hold_lock [OF m' e, of "\<lambda>s. s" "\<lambda>_. 5000" 0 "idle_world\<lparr>locks := held_by_alice\<rparr>"
      "\<lambda>w. (Inr () :: error + unit, w)"] a'
  have second: "apply_command ci_config (\<lambda>s. s) (\<lambda>_. 5000) 0
       (\<lambda>w. (Inr () :: error + unit, w)) (idle_world\<lparr>locks := held_by_alice\<rparr>)
     = (Inl (LockHeld ''schema-apply'' ''alice'' 1000), idle_world\<lparr>locks := held_by_alice\<rparr>)"
    by simp
  let ?alice = "\<lparr>lock_id = ''schema-apply'', owner = Some ''alice'', status = Some ''locked'',
                  created_at = 1000, expires_at = Some 5000\<rparr>"
  let ?w = "idle_world\<lparr>locks := held_by_alice\<rparr>"
  let ?l2 = "?l1(lock_docId (\<lambda>s. s) ''schema-apply'' := Some ?alice)"
  have held: "locks ?w = (locks idle_world)(lock_docId (\<lambda>s. s) ''schema-apply'' := Some ?alice)"
    by (simp add: idle_world_def held_by_alice_def lock_docId_def)
  have o: "''schema-apply'' \<in> set ?ids" "''schema-apply'' \<noteq> ''schema-rollback''"
    by simp_all
  note frame = t [of "\<lambda>w. (Inr () :: error + unit, w)", THEN conjunct2, THEN conjunct2,
                  THEN conjunct2, rule_format, OF inj, THEN conjunct2, rule_format, OF o]
  have a2: "acquire (\<lambda>s. s) (\<lambda>_. 1000) 0 ''schema-rollback'' (Given (lockOwner ci_config))
              Undefined (force ci_config) (locks ?w) = Inr ?l2"
    unfolding held frame a by simp
  have b2: "(\<lambda>w. (Inr () :: error + unit, w)) (?w\<lparr>locks := ?l2\<rparr>) = (Inr (), ?w\<lparr>locks := ?l2\<rparr>)"
    by simp
  have k2: "locks (?w\<lparr>locks := ?l2\<rparr>) (lock_docId (\<lambda>s. s) ''schema-rollback'')
            = ?l2 (lock_docId (\<lambda>s. s) ''schema-rollback'')"
    by simp
  have restored: "(locks (?w\<lparr>locks := ?l2\<rparr>))(lock_docId (\<lambda>s. s) ''schema-rollback'' := None)
              = held_by_alice"
    by (auto simp: fun_eq_iff held_by_alice_def lock_docId_def)
  from commands_hold_lock [OF m e, of "\<lambda>s. s" "\<lambda>_. 1000" 0 "?w" "\<lambda>w. (Inr () :: error + unit, w)",
         THEN conjunct2, THEN conjunct1, rule_format, OF a2 b2 k2, THEN conjunct2]
  have third: "rollback_command ci_config (\<lambda>s. s) (\<lambda>_. 1000) 0
       (\<lambda>w. (Inr () :: error + unit, w)) (idle_world\<lparr>locks := held_by_alice\<rparr>)
     = (Inr (), idle_world\<lparr>locks := held_by_alice\<rparr>)"
    unfolding restored by simp
  from first second third show ?thesis by blast
qed

section \<open>Properties of the change calculation\<close>

lemma fold_keyed_None:
  "fold (\<lambda>x m. m(key x \<mapsto> x)) xs m0 k = None \<longleftrightarrow> m0 k = None \<and> k \<notin> key ` set xs"
  by (induction xs arbitrary: m0) auto

lemma keyed_None: "keyed key xs k = None \<longleftrightarrow> k \<notin> key ` set xs"
  by (simp add: keyed_def fold_keyed_None)

lemma diff_attributes_collections [simp]:
  "collections (diff_attributes collId ra attrs ch) = collections ch"
  by (induction collId ra attrs ch rule: diff_attributes.induct) simp_all

lemma diff_attributes_indexes [simp]:
  "indexes (diff_attributes collId ra attrs ch) = indexes ch"
  by (induction collId ra attrs ch rule: diff_attributes.induct) simp_all

lemma diff_attributes_attributes:
  "attributes (diff_attributes collId ra attrs ch)
   = attributes ch @ map (\<lambda>(n, a). attribute_entry collId n a)
                       (filter (\<lambda>(n, a). a_relationship a = None \<and> ra n = None) attrs)"
  by (induction collId ra attrs ch rule: diff_attributes.induct) simp_all

lemma diff_indexes_collections [simp]:
  "collections (diff_indexes md5 collId ri idxs ch) = collections ch"
  by (induction md5 collId ri idxs ch rule: diff_indexes.induct) (simp_all add: Let_def)

lemma diff_indexes_attributes [simp]:
  "attributes (diff_indexes md5 collId ri idxs ch) = attributes ch"
  by (induction md5 collId ri idxs ch rule: diff_indexes.induct) (simp_all add: Let_def)

lemma diff_indexes_indexes:
  "indexes (diff_indexes md5 collId ri idxs ch)
   = indexes ch @ map (\<lambda>i. index_entry collId (index_key md5 i) i)
                    (filter (\<lambda>i. ri (index_key md5 i) = None) idxs)"
  by (induction md5 collId ri idxs ch rule: diff_indexes.induct) (simp_all add: Let_def)

lemma calculate_loop_collections:
  "collections (calculate_loop md5 remote schema ch)
   = collections ch @ map (\<lambda>(name, coll). collection_entry name coll)
                        (filter (\<lambda>(name, coll). remote (toKebabCase name) = None) schema)"
  by (induction md5 remote schema ch rule: calculate_loop.induct)
     (simp_all add: Let_def split: option.splits)

lemma calculate_loop_attributes:
  "attributes (calculate_loop md5 remote schema ch)
   = attributes ch @ concat (map (\<lambda>(name, coll).
        case remote (toKebabCase name) of
          None \<Rightarrow> []
        | Some remoteColl \<Rightarrow>
            map (\<lambda>(n, a). attribute_entry (toKebabCase name) n a)
              (filter (\<lambda>(n, a). a_relationship a = None \<and> n \<notin> ra_key ` set (rc_attributes remoteColl))
                 (c_attributes coll))) schema)"
  by (induction md5 remote schema ch rule: calculate_loop.induct)
     (simp_all add: Let_def diff_attributes_attributes keyed_None split: option.splits)

lemma calculate_loop_indexes:
  "indexes (calculate_loop md5 remote schema ch)
   = indexes ch @ concat (map (\<lambda>(name, coll).
        case remote (toKebabCase name) of
          None \<Rightarrow> []
        | Some remoteColl \<Rightarrow>
            map (\<lambda>i. index_entry (toKebabCase name) (index_key md5 i) i)
              (filter (\<lambda>i. index_key md5 i \<notin> ri_key ` set (rc_indexes remoteColl))
                 (c_indexes coll))) schema)"
  by (induction md5 remote schema ch rule: calculate_loop.induct)
     (simp_all add: Let_def diff_indexes_indexes keyed_None split: option.splits)

lemma attribute_created_iff:
  "ac \<in> set (attributes (calculateChanges md5 schema remote)) \<longleftrightarrow>
   (\<exists>name coll remoteColl n a.
      (name, coll) \<in> set schema \<and> remote (toKebabCase name) = Some remoteColl
      \<and> (n, a) \<in> set (c_attributes coll) \<and> a_relationship a = None
      \<and> n \<notin> ra_key ` set (rc_attributes remoteColl)
      \<and> ac = attribute_entry (toKebabCase name) n a)"
  (is "?L \<longleftrightarrow> ?R")
proof
  assume ?L
  then obtain name coll where s: "(name, coll) \<in> set schema"
    and m: "ac \<in> set (case remote (toKebabCase name) of
          None \<Rightarrow> []
        | Some remoteColl \<Rightarrow>
            map (\<lambda>(n, a). attribute_entry (toKebabCase name) n a)
              (filter (\<lambda>(n, a). a_relationship a = None \<and> n \<notin> ra_key ` set (rc_attributes remoteColl))
                 (c_attributes coll)))"
    by (auto simp: calculateChanges_def calculate_loop_attributes)
  from m obtain remoteColl where r: "remote (toKebabCase name) = Some remoteColl"
    by (cases "remote (toKebabCase name)") auto
  with m obtain n a where "(n, a) \<in> set (c_attributes coll)" "a_relationship a = None"
    "n \<notin> ra_key ` set (rc_attributes remoteColl)" "ac = attribute_entry (toKebabCase name) n a"
    by auto
  with s r show ?R by blast
next
  assume ?R
  then obtain name coll remoteColl n a where
    s: "(name, coll) \<in> set schema" and r: "remote (toKebabCase name) = Some remoteColl"
    and a: "(n, a) \<in> set (c_attributes coll)" "a_relationship a = None"
      "n \<notin> ra_key ` set (rc_attributes remoteColl)"
    and e: "ac = attribute_entry (toKebabCase name) n a"
    by blast
  let ?f = "\<lambda>(name, coll).
        case remote (toKebabCase name) of
          None \<Rightarrow> []
        | Some remoteColl \<Rightarrow>
            map (\<lambda>(n, a). attribute_entry (toKebabCase name) n a)
              (filter (\<lambda>(n, a). a_relationship a = None \<and> n \<notin> ra_key ` set (rc_attributes remoteColl))
                 (c_attributes coll))"
  have "(\<lambda>(n, a). attribute_entry (toKebabCase name) n a) (n, a)
          \<in> (\<lambda>(n, a). attribute_entry (toKebabCase name) n a)
              ` set (filter (\<lambda>(n, a). a_relationship a = None
                                     \<and> n \<notin> ra_key ` set (rc_attributes remoteColl))
                       (c_attributes coll))"
    by (rule imageI) (use a in simp)
  then have "ac \<in> set (?f (name, coll))"
    using r e by simp
  with s have "\<exists>p \<in> set schema. ac \<in> set (?f p)" by (rule_tac bexI)
  then show ?L
    by (simp add: calculateChanges_def calculate_loop_attributes)
qed

lemma index_created_iff:
  "ic \<in> set (indexes (calculateChanges md5 schema remote)) \<longleftrightarrow>
   (\<exists>name coll remoteColl i.
      (name, coll) \<in> set schema \<and> remote (toKebabCase name) = Some remoteColl
      \<and> i \<in> set (c_indexes coll)
      \<and> index_key md5 i \<notin> ri_key ` set (rc_indexes remoteColl)
      \<and> ic = index_entry (toKebabCase name) (index_key md5 i) i)"
  (is "?L \<longleftrightarrow> ?R")
proof
  assume ?L
  then obtain name coll where s: "(name, coll) \<in> set schema"
    and m: "ic \<in> set (case remote (toKebabCase name) of
          None \<Rightarrow> []
        | Some remoteColl \<Rightarrow>
            map (\<lambda>i. index_entry (toKebabCase name) (index_key md5 i) i)
              (filter (\<lambda>i. index_key md5 i \<notin> ri_key ` set (rc_indexes remoteColl))
                 (c_indexes coll)))"
    by (auto simp: calculateChanges_def calculate_loop_indexes)
  from m obtain remoteColl where r: "remote (toKebabCase name) = Some remoteColl"
    by (cases "remote (toKebabCase name)") auto
  with m obtain i where "i \<in> set (c_indexes coll)"
    "index_key md5 i \<notin> ri_key ` set (rc_indexes remoteColl)"
    "ic = index_entry (toKebabCase name) (index_key md5 i) i"
    by auto
  with s r show ?R by blast
next
  assume ?R
  then obtain name coll remoteColl i where
    s: "(name, coll) \<in> set schema" and r: "remote (toKebabCase name) = Some remoteColl"
    and a: "i \<in> set (c_indexes coll)" "index_key md5 i \<notin> ri_key ` set (rc_indexes remoteColl)"
    and e: "ic = index_entry (toKebabCase name) (index_key md5 i) i"
    by blast
  let ?f = "\<lambda>(name, coll).
        case remote (toKebabCase name) of
          None \<Rightarrow> []
        | Some remoteColl \<Rightarrow>
            map (\<lambda>i. index_entry (toKebabCase name) (index_key md5 i) i)
              (filter (\<lambda>i. index_key md5 i \<notin> ri_key ` set (rc_indexes remoteColl))
                 (c_indexes coll))"
  from a e have "ic \<in> set (?f (name, coll))"
    using r by simp
  with s have "\<exists>p \<in> set schema. ic \<in> set (?f p)" by (rule_tac bexI)
  then show ?L
    by (simp add: calculateChanges_def calculate_loop_indexes)
qed

lemma filter_key_single:
  "distinct (map fst xs) \<Longrightarrow> (k, v) \<in> set xs \<Longrightarrow> filter (\<lambda>(n, c). n = k) xs = [(k, v)]"
proof (induction xs)
  case Nil
  then show ?case by simp
next
  case (Cons x xs)
  obtain n c where x: "x = (n, c)" by (cases x)
  show ?case
  proof (cases "n = k")
    case True
    with Cons.prems x have "c = v" and "\<forall>p \<in> set xs. fst p \<noteq> k"
      by (auto simp: image_iff)
    then have "filter (\<lambda>(n, c). n = k) xs = []"
      by (auto simp: filter_empty_conv)
    with True x \<open>c = v\<close> show ?thesis by simp
  next
    case False
    with Cons x show ?thesis by auto
  qed
qed

lemma one_entry_per_absent_collection:
  assumes d: "distinct (map fst schema)" and i: "inj_on toKebabCase (fst ` set schema)"
    and s: "(name, coll) \<in> set schema" and a: "remote (toKebabCase name) = None"
  shows "filter (\<lambda>cc. cc_id cc = toKebabCase name) (collections (calculateChanges md5 schema remote))
         = [collection_entry name coll]"
proof -
  have "filter (\<lambda>(n, c). toKebabCase n = toKebabCase name \<and> remote (toKebabCase n) = None) schema
        = filter (\<lambda>(n, c). n = name) schema"
  proof (rule filter_cong [OF refl])
    fix p assume p: "p \<in> set schema"
    obtain n c where pc: "p = (n, c)" by (cases p)
    from p pc s i have "toKebabCase n = toKebabCase name \<longleftrightarrow> n = name"
      by (metis fst_conv image_eqI inj_on_eq_iff)
    with a pc show "(case p of (n, c) \<Rightarrow> toKebabCase n = toKebabCase name \<and> remote (toKebabCase n) = None)
                    = (case p of (n, c) \<Rightarrow> n = name)"
      by auto
  qed
  also have "\<dots> = [(name, coll)]" using d s by (rule filter_key_single)
  finally have f: "filter (\<lambda>(n, c). toKebabCase n = toKebabCase name \<and> remote (toKebabCase n) = None) schema
                   = [(name, coll)]" .
  have "filter (\<lambda>cc. cc_id cc = toKebabCase name) (collections (calculateChanges md5 schema remote))
        = map (\<lambda>(name, coll). collection_entry name coll)
            (filter (\<lambda>(n, c). toKebabCase n = toKebabCase name \<and> remote (toKebabCase n) = None) schema)"
    by (simp add: calculateChanges_def calculate_loop_collections filter_map o_def
                  case_prod_unfold collection_entry_def conj_commute)
  with f show ?thesis by simp
qed

text \<open>
  C4: the collection entries of the change set are, in order and one each, the entries
  of the declared collections whose kebab-cased id the remote state lacks (exactly one
  entry carries the id of such a collection when names and ids are unambiguous); no
  attribute or index entry names such a collection; and when the id is present, every
  declared attribute without a relationship decorator whose name is not a key of the
  remote collection's attributes has its attribute entry in the change set.
\<close>

theorem calculateChanges_collections_attributes:
  "collections (calculateChanges md5 schema remote)
     = map (\<lambda>(name, coll). collection_entry name coll)
         (filter (\<lambda>(name, coll). remote (toKebabCase name) = None) schema)
   \<and> (\<forall>ac \<in> set (attributes (calculateChanges md5 schema remote)).
         remote (ac_collection_id ac) \<noteq> None)
   \<and> (\<forall>ic \<in> set (indexes (calculateChanges md5 schema remote)).
         remote (ic_collection_id ic) \<noteq> None)
   \<and> (\<forall>name coll remoteColl attrName attr.
         (name, coll) \<in> set schema \<longrightarrow> remote (toKebabCase name) = Some remoteColl \<longrightarrow>
         (attrName, attr) \<in> set (c_attributes coll) \<longrightarrow> a_relationship attr = None \<longrightarrow>
         attrName \<notin> ra_key ` set (rc_attributes remoteColl) \<longrightarrow>
         attribute_entry (toKebabCase name) attrName attr
           \<in> set (attributes (calculateChanges md5 schema remote)))
   \<and> (distinct (map fst schema) \<and> inj_on toKebabCase (fst ` set schema) \<longrightarrow>
       (\<forall>name coll.
          (name, coll) \<in> set schema \<longrightarrow> remote (toKebabCase name) = None \<longrightarrow>
          filter (\<lambda>cc. cc_id cc = toKebabCase name)
            (collections (calculateChanges md5 schema remote))
          = [collection_entry name coll]))"
proof (intro conjI ballI allI impI)
  show "collections (calculateChanges md5 schema remote)
     = map (\<lambda>(name, coll). collection_entry name coll)
         (filter (\<lambda>(name, coll). remote (toKebabCase name) = None) schema)"
    by (simp add: calculateChanges_def calculate_loop_collections)
next
  fix ac
  assume "ac \<in> set (attributes (calculateChanges md5 schema remote))"
  then show "remote (ac_collection_id ac) \<noteq> None"
    by (auto simp: attribute_created_iff attribute_entry_def)
next
  fix ic
  assume "ic \<in> set (indexes (calculateChanges md5 schema remote))"
  then show "remote (ic_collection_id ic) \<noteq> None"
    by (auto simp: index_created_iff index_entry_def)
next
  fix name coll remoteColl attrName attr
  assume "(name, coll) \<in> set schema" "remote (toKebabCase name) = Some remoteColl"
    "(attrName, attr) \<in> set (c_attributes coll)" "a_relationship attr = None"
    "attrName \<notin> ra_key ` set (rc_attributes remoteColl)"
  then show "attribute_entry (toKebabCase name) attrName attr
           \<in> set (attributes (calculateChanges md5 schema remote))"
    unfolding attribute_created_iff by blast
next
  fix name coll
  assume "distinct (map fst schema) \<and> inj_on toKebabCase (fst ` set schema)"
    "(name, coll) \<in> set schema" "remote (toKebabCase name) = None"
  then show "filter (\<lambda>cc. cc_id cc = toKebabCase name)
            (collections (calculateChanges md5 schema remote))
          = [collection_entry name coll]"
    by (auto intro: one_entry_per_absent_collection)
qed


lemma kebab_UserProfile: "toKebabCase ''UserProfile'' = ''user-profile''"
  by code_simp

lemma kebab_Team: "toKebabCase ''Team'' = ''team''"
  by code_simp

theorem calculateChanges_collections_attributes_witness:
  "collections (calculateChanges (\<lambda>s. s) sample_schema sample_remote)
     = [\<lparr>cc_id = ''team'', cc_name = ''Team'', cc_attributes = [], cc_indexes = []\<rparr>]
   \<and> \<lparr>ac_collection_id = ''user-profile'', ac_key = ''email'', ac_type = ''String'',
       ac_array = False, ac_required = True, ac_size = Some 255, ac_default = None\<rparr>
       \<in> set (attributes (calculateChanges (\<lambda>s. s) sample_schema sample_remote))
   \<and> filter (\<lambda>cc. cc_id cc = ''team'')
         (collections (calculateChanges (\<lambda>s. s) sample_schema sample_remote))
     = [\<lparr>cc_id = ''team'', cc_name = ''Team'', cc_attributes = [], cc_indexes = []\<rparr>]"
proof -
  note t = calculateChanges_collections_attributes [of "\<lambda>s. s" sample_schema sample_remote]
  have h1: "(''UserProfile'', \<lparr>c_name = Some ''UserProfile'',
                         c_attributes = [(''email'', plain_email), (''team'', team_link)],
                         c_indexes = [email_index]\<rparr>) \<in> set sample_schema"
    by (simp add: sample_schema_def)
  have h2: "sample_remote (toKebabCase ''UserProfile'') = Some \<lparr>rc_attributes = [], rc_indexes = []\<rparr>"
    by (simp add: sample_remote_def kebab_UserProfile)
  have h3: "(''email'', plain_email) \<in> set (c_attributes \<lparr>c_name = Some ''UserProfile'',
                         c_attributes = [(''email'', plain_email), (''team'', team_link)],
                         c_indexes = [email_index]\<rparr>)"
    by simp
  have h4: "a_relationship plain_email = None"
    by (simp add: plain_email_def)
  have h5: "''email'' \<notin> ra_key ` set (rc_attributes \<lparr>rc_attributes = [], rc_indexes = []\<rparr>)"
    by simp
  have wf: "distinct (map fst sample_schema) \<and> inj_on toKebabCase (fst ` set sample_schema)"
    by (simp add: sample_schema_def kebab_UserProfile kebab_Team)
  have h6: "(''Team'', \<lparr>c_name = Some ''Team'', c_attributes = [], c_indexes = []\<rparr>)
              \<in> set sample_schema"
    by (simp add: sample_schema_def)
  have h7: "sample_remote (toKebabCase ''Team'') = None"
    by (simp add: sample_remote_def kebab_Team)
  from t h1 h2 h3 h4 h5
  have "attribute_entry (toKebabCase ''UserProfile'') ''email'' plain_email
          \<in> set (attributes (calculateChanges (\<lambda>s. s) sample_schema sample_remote))"
    by blast
  moreover from t
  have "collections (calculateChanges (\<lambda>s. s) sample_schema sample_remote)
     = [\<lparr>cc_id = ''team'', cc_name = ''Team'', cc_attributes = [], cc_indexes = []\<rparr>]"
    by (simp add: sample_schema_def sample_remote_def kebab_UserProfile kebab_Team
                  collection_entry_def or_else_def)
  moreover from t wf h6 h7
  have "filter (\<lambda>cc. cc_id cc = toKebabCase ''Team'')
          (collections (calculateChanges (\<lambda>s. s) sample_schema sample_remote))
        = [collection_entry ''Team'' \<lparr>c_name = Some ''Team'', c_attributes = [], c_indexes = []\<rparr>]"
    by blast
  ultimately show ?thesis
    by (simp add: attribute_entry_def kebab_UserProfile kebab_Team plain_email_def
                  collection_entry_def or_else_def)
qed

section \<open>Properties of the relationship calculation\<close>

lemma pending_of_attributes_set:
  "set (pending_of_attributes collId rk attrs pending)
   = set pending \<union> {pending_relationship collId n a rel | n a rel.
        (n, a) \<in> set attrs \<and> a_relationship a = Some rel \<and> n \<notin> rk}"
proof (induction collId rk attrs pending rule: pending_of_attributes.induct)
  case (1 collId rk pending)
  then show ?case by simp
next
  case (2 collId rk attrName attr rest pending)
  show ?case
  proof (cases "a_relationship attr")
    case None
    with 2 show ?thesis by auto
  next
    case (Some rel)
    with 2 show ?thesis by (cases "attrName \<in> rk") auto
  qed
qed

lemma relationships_loop_set:
  "set (relationships_loop remote schema pending)
   = set pending \<union> {pending_relationship (toKebabCase name) n a rel | name coll n a rel.
        (name, coll) \<in> set schema \<and> (n, a) \<in> set (c_attributes coll)
        \<and> a_relationship a = Some rel \<and> n \<notin> remoteRelationshipKeys remote (toKebabCase name)}"
proof (induction remote schema pending rule: relationships_loop.induct)
  case (1 remote pending)
  then show ?case by simp
next
  case (2 remote name coll rest pending)
  show ?case
    unfolding relationships_loop.simps Let_def "2.IH" [OF refl] pending_of_attributes_set
    by (simp only: set_simps) blast
qed

lemma pending_iff:
  "p \<in> set (calculateRelationships schema remote) \<longleftrightarrow>
   (\<exists>name coll n a rel.
      (name, coll) \<in> set schema \<and> (n, a) \<in> set (c_attributes coll)
      \<and> a_relationship a = Some rel \<and> n \<notin> remoteRelationshipKeys remote (toKebabCase name)
      \<and> p = pending_relationship (toKebabCase name) n a rel)"
  unfolding calculateRelationships_def relationships_loop_set by simp blast

lemma remoteRelationshipKeys_iff:
  "n \<in> remoteRelationshipKeys remote collId \<longleftrightarrow>
   (\<exists>ra \<in> set (case remote collId of None \<Rightarrow> [] | Some remoteColl \<Rightarrow> rc_attributes remoteColl).
      ra_type ra = ''relationship'' \<and> ra_key ra = n)"
  by (auto simp: remoteRelationshipKeys_def)

lemma entry_unique:
  "distinct (map fst xs) \<Longrightarrow> (k, v) \<in> set xs \<Longrightarrow> (k, v') \<in> set xs \<Longrightarrow> v = v'"
  by (meson eq_key_imp_eq_value)

text \<open>
  C5: every attribute entry that \<open>calculateChanges\<close> emits comes from a declared
  attribute without a relationship decorator, so that, collection ids and attribute
  names being unambiguous, no entry is emitted for an attribute that carries one; and
  \<open>calculateRelationships\<close> emits the pending relationship of a declared relationship
  attribute exactly when the remote collection has no attribute of type
  \<open>relationship\<close> with the same key.
\<close>

theorem relationships_two_phase:
  "(\<forall>ac \<in> set (attributes (calculateChanges md5 schema remote)).
      \<exists>name coll attr. (name, coll) \<in> set schema
        \<and> (ac_key ac, attr) \<in> set (c_attributes coll) \<and> a_relationship attr = None
        \<and> ac = attribute_entry (toKebabCase name) (ac_key ac) attr)
   \<and> (inj_on toKebabCase (fst ` set schema) \<and> distinct (map fst schema) \<longrightarrow>
       (\<forall>name coll attrName attr.
          (name, coll) \<in> set schema \<longrightarrow> distinct (map fst (c_attributes coll)) \<longrightarrow>
          (attrName, attr) \<in> set (c_attributes coll) \<longrightarrow> a_relationship attr \<noteq> None \<longrightarrow>
          \<not> (\<exists>ac \<in> set (attributes (calculateChanges md5 schema remote)).
                ac_collection_id ac = toKebabCase name \<and> ac_key ac = attrName)))
   \<and> (\<forall>name coll attrName attr rel.
         (name, coll) \<in> set schema \<longrightarrow> (attrName, attr) \<in> set (c_attributes coll) \<longrightarrow>
         a_relationship attr = Some rel \<longrightarrow>
         (pending_relationship (toKebabCase name) attrName attr rel
            \<in> set (calculateRelationships schema remote)
          \<longleftrightarrow> \<not> (\<exists>ra \<in> set (case remote (toKebabCase name) of
                                  None \<Rightarrow> []
                                | Some remoteColl \<Rightarrow> rc_attributes remoteColl).
                     ra_type ra = ''relationship'' \<and> ra_key ra = attrName)))"
proof (intro conjI ballI allI impI)
  fix ac
  assume "ac \<in> set (attributes (calculateChanges md5 schema remote))"
  then obtain name coll n a where
    "(name, coll) \<in> set schema" "(n, a) \<in> set (c_attributes coll)" "a_relationship a = None"
    "ac = attribute_entry (toKebabCase name) n a"
    unfolding attribute_created_iff by blast
  then show "\<exists>name coll attr. (name, coll) \<in> set schema
        \<and> (ac_key ac, attr) \<in> set (c_attributes coll) \<and> a_relationship attr = None
        \<and> ac = attribute_entry (toKebabCase name) (ac_key ac) attr"
    by (intro exI [of _ name] exI [of _ coll] exI [of _ a]) (simp add: attribute_entry_def)
next
  fix name coll attrName attr
  assume wf: "inj_on toKebabCase (fst ` set schema) \<and> distinct (map fst schema)"
    and s: "(name, coll) \<in> set schema" and d: "distinct (map fst (c_attributes coll))"
    and a: "(attrName, attr) \<in> set (c_attributes coll)" and r: "a_relationship attr \<noteq> None"
  show "\<not> (\<exists>ac \<in> set (attributes (calculateChanges md5 schema remote)).
                ac_collection_id ac = toKebabCase name \<and> ac_key ac = attrName)"
  proof
    assume "\<exists>ac \<in> set (attributes (calculateChanges md5 schema remote)).
                ac_collection_id ac = toKebabCase name \<and> ac_key ac = attrName"
    then obtain ac where m: "ac \<in> set (attributes (calculateChanges md5 schema remote))"
      and c: "ac_collection_id ac = toKebabCase name" "ac_key ac = attrName"
      by blast
    from m obtain name' coll' n' a' where
      s': "(name', coll') \<in> set schema" and a': "(n', a') \<in> set (c_attributes coll')"
      and r': "a_relationship a' = None"
      and e: "ac = attribute_entry (toKebabCase name') n' a'"
      unfolding attribute_created_iff by blast
    from c e have k: "toKebabCase name' = toKebabCase name" and n: "n' = attrName"
      by (simp_all add: attribute_entry_def)
    from wf s s' k have "name' = name"
      by (auto dest!: inj_onD [where x = name' and y = name] simp: image_iff) force+
    with wf s s' have "coll' = coll" by (auto dest: entry_unique)
    with d a a' n have "a' = attr" by (auto dest: entry_unique)
    with r r' show False by simp
  qed
next
  fix name coll attrName attr rel
  assume s: "(name, coll) \<in> set schema" and a: "(attrName, attr) \<in> set (c_attributes coll)"
    and r: "a_relationship attr = Some rel"
  let ?absent = "\<not> (\<exists>ra \<in> set (case remote (toKebabCase name) of
                                  None \<Rightarrow> []
                                | Some remoteColl \<Rightarrow> rc_attributes remoteColl).
                     ra_type ra = ''relationship'' \<and> ra_key ra = attrName)"
  show "pending_relationship (toKebabCase name) attrName attr rel
            \<in> set (calculateRelationships schema remote) \<longleftrightarrow> ?absent"
  proof
    assume "pending_relationship (toKebabCase name) attrName attr rel
            \<in> set (calculateRelationships schema remote)"
    then obtain name' n' a' rel' where
      "n' \<notin> remoteRelationshipKeys remote (toKebabCase name')"
      "pending_relationship (toKebabCase name) attrName attr rel
       = pending_relationship (toKebabCase name') n' a' rel'"
      unfolding pending_iff by blast
    then have "attrName \<notin> remoteRelationshipKeys remote (toKebabCase name)"
      by (simp add: pending_relationship_def)
    then show ?absent by (simp add: remoteRelationshipKeys_iff)
  next
    assume ?absent
    then have "attrName \<notin> remoteRelationshipKeys remote (toKebabCase name)"
      by (simp add: remoteRelationshipKeys_iff)
    with s a r show "pending_relationship (toKebabCase name) attrName attr rel
            \<in> set (calculateRelationships schema remote)"
      unfolding pending_iff by blast
  qed
qed

theorem relationships_two_phase_witness:
  "pending_relationship ''user-profile'' ''team'' team_link
       \<lparr>r_to = Some ''Team'', r_type = Some ''many-to-one'', r_twoWayKey = None,
        r_onDelete = None\<rparr>
     \<in> set (calculateRelationships sample_schema sample_remote)
   \<and> \<not> (\<exists>ac \<in> set (attributes (calculateChanges (\<lambda>s. s) sample_schema sample_remote)).
           ac_collection_id ac = ''user-profile'' \<and> ac_key ac = ''team'')"
proof -
  let ?coll = "\<lparr>c_name = Some ''UserProfile'',
                c_attributes = [(''email'', plain_email), (''team'', team_link)],
                c_indexes = [email_index]\<rparr>"
  let ?rel = "\<lparr>r_to = Some ''Team'', r_type = Some ''many-to-one'', r_twoWayKey = None,
               r_onDelete = None\<rparr>"
  note t = relationships_two_phase [of "\<lambda>s. s" sample_schema sample_remote]
  have wf: "inj_on toKebabCase (fst ` set sample_schema) \<and> distinct (map fst sample_schema)"
    by (simp add: sample_schema_def kebab_UserProfile kebab_Team)
  have s: "(''UserProfile'', ?coll) \<in> set sample_schema"
    by (simp add: sample_schema_def)
  have d: "distinct (map fst (c_attributes ?coll))" by simp
  have a: "(''team'', team_link) \<in> set (c_attributes ?coll)" by simp
  have r: "a_relationship team_link = Some ?rel" by (simp add: team_link_def)
  have n: "\<not> (\<exists>ra \<in> set (case sample_remote (toKebabCase ''UserProfile'') of
                            None \<Rightarrow> []
                          | Some remoteColl \<Rightarrow> rc_attributes remoteColl).
               ra_type ra = ''relationship'' \<and> ra_key ra = ''team'')"
    by (simp add: sample_remote_def kebab_UserProfile)
  from t s a r n
  have "pending_relationship (toKebabCase ''UserProfile'') ''team'' team_link ?rel
          \<in> set (calculateRelationships sample_schema sample_remote)"
    by blast
  moreover from r have r': "a_relationship team_link \<noteq> None" by simp
  from t wf s d a r'
  have "\<not> (\<exists>ac \<in> set (attributes (calculateChanges (\<lambda>s. s) sample_schema sample_remote)).
           ac_collection_id ac = toKebabCase ''UserProfile'' \<and> ac_key ac = ''team'')"
    by blast
  ultimately show ?thesis by (simp add: kebab_UserProfile)
qed

section \<open>Properties of applying a change set\<close>

lemma buildAttributeCommand_error:
  "buildAttributeCommand attr = Inl err \<Longrightarrow> \<not> already_exists err"
  by (auto simp: buildAttributeCommand_def Let_def already_exists_def split: if_splits)

lemma create_collections_planned:
  "create_collections env colls w
   = run_planned env (map (\<lambda>coll. Inr (CreateCollection (cc_id coll) (cc_name coll))) colls) w"
  by (induction env colls w rule: create_collections.induct)
     (simp_all split: prod.splits sum.splits)

lemma create_attributes_planned:
  "create_attributes env attrs w = run_planned env (map buildAttributeCommand attrs) w"
proof (induction env attrs w rule: create_attributes.induct)
  case (1 env w)
  then show ?case by simp
next
  case (2 env attr rest w)
  show ?case
  proof (cases "buildAttributeCommand attr")
    case (Inl err)
    then show ?thesis using buildAttributeCommand_error [OF Inl] by simp
  next
    case (Inr cmd)
    then have "\<exists>kind c k sz rq ar. cmd = CreateAttribute kind c k sz rq ar"
      by (auto simp: buildAttributeCommand_def Let_def split: if_splits)
    with Inr 2 show ?thesis
      by (auto split: prod.splits sum.splits)
  qed
qed

lemma create_indexes_planned:
  "create_indexes md5 env idxs w = run_planned env (map (\<lambda>idx. Inr (index_call md5 idx)) idxs) w"
  by (induction md5 env idxs w rule: create_indexes.induct)
     (auto simp: ensureIndex_def index_call_def split: prod.splits sum.splits if_splits)

lemma run_planned_append:
  "run_planned env (xs @ ys) w
   = (case run_planned env xs w of
        (Inl err, w') \<Rightarrow> (Inl err, w')
      | (Inr u, w') \<Rightarrow> run_planned env ys w')"
  by (induction env xs w rule: run_planned.induct)
     (auto split: prod.splits sum.splits)

lemma applyChanges_planned:
  "applyChanges cfg md5 env changes w = run_planned env (planned_calls md5 changes) w"
  by (simp add: applyChanges_def planned_calls_def run_planned_append
                create_collections_planned create_attributes_planned create_indexes_planned
           split: prod.splits sum.splits)

lemma run_planned_locks: "locks (snd (run_planned env plan w)) = locks w"
proof (induction env plan w rule: run_planned.induct)
  case (1 env w)
  then show ?case by simp
next
  case (2 env err rest w)
  then show ?case by simp
next
  case (3 env call rest w)
  then show ?case
    by (cases "env (calls w) call") (simp_all add: run_call_def)
qed

lemma applyChanges_locks: "locks (snd (applyChanges cfg md5 env changes w)) = locks w"
  by (simp add: applyChanges_planned run_planned_locks)

text \<open>
  C6, as stated, lets the run go on after an error that is not "already exists" when the
  force flag is set. \<open>applyChanges\<close> never reads the flag: with \<open>--force\<close> and a remote side
  that refuses the first collection with a connection error, the run ends there and the
  second collection is never tried, where the claim has both tried and the run succeed.
\<close>

theorem applyChanges_counterexample:
  "applyChanges (ci_config\<lparr>force := True\<rparr>) (\<lambda>s. s) unreachable_remote two_collections idle_world
     = (Inl (CliError ''connect ECONNREFUSED'' 1),
        idle_world\<lparr>calls := [CreateCollection ''users'' ''Users'']\<rparr>)
   \<and> spec_run_planned True unreachable_remote (planned_calls (\<lambda>s. s) two_collections) idle_world
     = (Inr (), idle_world\<lparr>calls := [CreateCollection ''users'' ''Users'',
                                       CreateCollection ''teams'' ''Teams'']\<rparr>)"
  by (simp add: applyChanges_def two_collections_def unreachable_remote_def idle_world_def
                run_call_def already_exists_def planned_calls_def)

text \<open>
  C6 (amended): \<open>applyChanges\<close> issues the creation calls in the order collections,
  attributes, indexes. A failed collection or attribute call whose stderr text contains
  \<open>already exists\<close>, and a failed index call with status 409, is a no-op success and the
  loop continues; any other error, also the error of an unsupported attribute type,
  aborts the whole run, whether or not the force flag is set.
\<close>

theorem applyChanges_amended:
  "applyChanges cfg md5 env changes w = run_planned env (planned_calls md5 changes) w
   \<and> applyChanges (cfg\<lparr>force := True\<rparr>) md5 env changes w = applyChanges cfg md5 env changes w"
proof
  show "applyChanges cfg md5 env changes w = run_planned env (planned_calls md5 changes) w"
    by (rule applyChanges_planned)
  show "applyChanges (cfg\<lparr>force := True\<rparr>) md5 env changes w = applyChanges cfg md5 env changes w"
    by (simp add: applyChanges_def)
qed

section \<open>Properties of rollback\<close>

lemma delete_indexes_calls:
  "delete_indexes env xs w = w\<lparr>calls := calls w @ map (\<lambda>(c, k). DeleteIndex c k) xs\<rparr>"
proof (induction xs arbitrary: w)
  case Nil
  then show ?case by simp
next
  case (Cons x xs)
  obtain a b where x: "x = (a, b)" by (cases x)
  show ?case
    unfolding x by (cases "env (calls w) (DeleteIndex a b)") (simp_all add: run_call_def Cons.IH)
qed

lemma delete_attributes_calls:
  "delete_attributes env xs w = w\<lparr>calls := calls w @ map (\<lambda>(c, k). DeleteAttribute c k) xs\<rparr>"
proof (induction xs arbitrary: w)
  case Nil
  then show ?case by simp
next
  case (Cons x xs)
  obtain a b where x: "x = (a, b)" by (cases x)
  show ?case
    unfolding x by (cases "env (calls w) (DeleteAttribute a b)") (simp_all add: run_call_def Cons.IH)
qed

lemma delete_collections_calls:
  "delete_collections env xs w = w\<lparr>calls := calls w @ map (\<lambda>(i, n). DeleteCollection i) xs\<rparr>"
proof (induction xs arbitrary: w)
  case Nil
  then show ?case by simp
next
  case (Cons x xs)
  obtain a b where x: "x = (a, b)" by (cases x)
  show ?case
    unfolding x by (cases "env (calls w) (DeleteCollection a)") (simp_all add: run_call_def Cons.IH)
qed

text \<open>
  The deletions of a rollback, in their order, and the flip of the status: whatever
  the remote side answers to the deletions.
\<close>

lemma rollback_body_run:
  assumes "latestHistory (Some ''applied'') w = Some history"
    and "doc_payload history = Some \<lparr>p_type = Some ''apply'',
           p_changes = Some \<lparr>cp_collections = Some cs, cp_attributes = Some as,
                             cp_indexes = Some is\<rparr>\<rparr>"
    and "\<not> dryRun cfg"
  shows "rollback_body cfg md5 now env w
         = updateHistoryStatus md5 now (record_id history) ''rolled_back''
             (w\<lparr>calls := calls w @ map (\<lambda>(c, k). DeleteIndex c k) is
                                 @ map (\<lambda>(c, k). DeleteAttribute c k) as
                                 @ map (\<lambda>(i, n). DeleteCollection i) cs\<rparr>)"
  using assms
  by (simp add: rollback_body_def or_empty_def delete_indexes_calls delete_attributes_calls
                delete_collections_calls Let_def)

text \<open>The work of a rollback leaves the lock collection alone.\<close>

lemma rollback_body_locks: "locks (snd (rollback_body cfg md5 now env w)) = locks w"
  by (simp add: rollback_body_def updateHistoryStatus_def delete_indexes_calls
                delete_attributes_calls delete_collections_calls Let_def
           split: option.splits)

text \<open>
  So the rollback command, run with the work above, ends with its lock released.
\<close>

lemma rollback_command_releases:
  assumes "ensureConfig cfg = Inr ()"
    and a: "acquire md5 clock k ''schema-rollback'' (Given (lockOwner cfg)) Undefined
              (force cfg) (locks w) = Inr locks1"
  shows "locks (snd (rollback_command cfg md5 clock k (rollback_body cfg md5 now env) w))
           (lock_docId md5 ''schema-rollback'') = None"
proof -
  from assms(1) have c: "truthy (appwriteProject cfg)" "truthy (appwriteKey cfg)"
    by (auto simp: ensureConfig_def split: if_splits)
  obtain r w1 where b: "rollback_body cfg md5 now env (w\<lparr>locks := locks1\<rparr>) = (r, w1)"
    by (cases "rollback_body cfg md5 now env (w\<lparr>locks := locks1\<rparr>)")
  have "locks w1 = locks1"
    using rollback_body_locks [of cfg md5 now env "w\<lparr>locks := locks1\<rparr>"] b by simp
  then have "locks w1 (lock_docId md5 ''schema-rollback'')
             = locks1 (lock_docId md5 ''schema-rollback'')"
    by simp
  from withLock_released [where fn = "rollback_body cfg md5 now env", OF c a b this] assms(1)
  show ?thesis
    by (simp add: rollback_command_def)
qed

text \<open>
  C7: the claim has a deletion failure other than "not found" propagated. With the
  history entry of an apply run and a remote side that refuses every deletion with a
  connection error, the three deletions are tried in the order index, attribute,
  collection, each error is swallowed, the rollback returns normally and the history
  entry is marked \<open>rolled_back\<close>; the record itself stays.
\<close>

theorem rollback_swallows_failures:
  "rollback_body ci_config (\<lambda>s. s) 9000 unreachable_remote applied_world
   = (Inr (),
      \<lparr>locks = Map.empty,
       state_docs =
         [\<lparr>doc_id = ''history:7f3a'', record_type = ''history'', record_id = ''7f3a'',
           doc_status = Some ''rolled_back'',
           doc_payload = Some \<lparr>p_type = Some ''apply'',
                               p_changes = Some \<lparr>cp_collections = Some [(''users'', ''Users'')],
                                                 cp_attributes = Some [(''users'', ''email'')],
                                                 cp_indexes = Some [(''users'', ''idx_email'')]\<rparr>\<rparr>,
           doc_created_at = 1000, doc_updated_at = 9000\<rparr>],
       calls = [DeleteIndex ''users'' ''idx_email'', DeleteAttribute ''users'' ''email'',
                DeleteCollection ''users'']\<rparr>)"
  by (simp add: rollback_body_def latestHistory_def applied_world_def ci_config_def truthy_def
                or_empty_def updateHistoryStatus_def state_docId_def run_call_def
                unreachable_remote_def Let_def)

end
